theory Spec2Isabelle
  imports Complex_Main "HOL-Library.Char_ord" "HOL-Library.List_Lexorder"
begin

section \<open>Data model of the weather analysis pipeline\<close>

text \<open>
  The development embeds \<^verbatim>\<open>WeatherDataProcessor\<close> of
  \<^verbatim>\<open>src/processing/analyzer.py\<close>. Measurements are Python floats; they are
  modelled as real numbers, so rounding is outside the model, and a missing value (pandas'
  NaN, a null of the weather API) is \<open>None\<close> of an option type. A timestamp is the
  instant it denotes, in seconds since the epoch; \<^verbatim>\<open>pd.to_datetime\<close> is library
  code and its parsing is not modelled.
\<close>

datatype error =
    KeyError string
  | ValueError string
  | DataShapeError
    \<comment> \<open>the error kind named by the specification; no path of the source raises it\<close>

type_synonym timestamp = int

definition date_of :: "timestamp \<Rightarrow> int" where
  "date_of t = t div 86400"

text \<open>
  One row of the observation table, with the derived columns of the enrichment step. The
  row is parametrised by the type of its temperature: the moving average is defined on
  rows whose temperature may be missing (\<open>raw_observation\<close>, as the API delivers them);
  the components whose results are stated for tables without missing temperatures work on
  rows that hold a number (\<open>observation\<close>).
\<close>

record 't reading =
  time :: timestamp
  city :: string
  latitude :: real
  longitude :: real
  state :: "string option"
  region :: "string option"
  temperature_2m :: 't
  relative_humidity_2m :: real
  precipitation :: real
  wind_speed_10m :: real
  cloud_cover :: real
  temp_ma :: "real option"
  temp_anomaly :: bool

type_synonym observation = "real reading"

type_synonym raw_observation = "real option reading"

text \<open>
  A \<^verbatim>\<open>DataFrame\<close>: the names of its columns and its rows. A field of a row whose column
  is not listed is not part of the table; \<^verbatim>\<open>pd.DataFrame()\<close> has neither columns nor
  rows.
\<close>

record 'r frame =
  columns :: "string list"
  rows :: "'r list"

definition empty_frame :: "'r frame" where
  "empty_frame = \<lparr>columns = [], rows = []\<rparr>"

definition has_column :: "'r frame \<Rightarrow> string \<Rightarrow> bool" where
  "has_column df c = (c \<in> set (columns df))"

text \<open>\<^verbatim>\<open>df.empty\<close>: some axis has length zero.\<close>

definition is_empty :: "'r frame \<Rightarrow> bool" where
  "is_empty df = (columns df = [] \<or> rows df = [])"

text \<open>\<^verbatim>\<open>Series.unique()\<close>: the distinct values in order of first appearance.\<close>

fun unique_acc :: "'a list \<Rightarrow> 'a list \<Rightarrow> 'a list" where
  "unique_acc seen [] = []"
| "unique_acc seen (x # xs) =
     (if x \<in> set seen then unique_acc seen xs else x # unique_acc (x # seen) xs)"

definition unique :: "'a list \<Rightarrow> 'a list" where
  "unique xs = unique_acc [] xs"

text \<open>Reductions of a numeric series; the mean, maximum and minimum of no value are NaN.\<close>

definition series_sum :: "real list \<Rightarrow> real" where
  "series_sum xs = fold (\<lambda>x s. s + x) xs 0"

definition series_mean :: "real list \<Rightarrow> real option" where
  "series_mean xs = (if xs = [] then None else Some (series_sum xs / real (length xs)))"

definition series_max :: "real list \<Rightarrow> real option" where
  "series_max xs = (case xs of [] \<Rightarrow> None | x # ys \<Rightarrow> Some (fold max ys x))"

definition series_min :: "real list \<Rightarrow> real option" where
  "series_min xs = (case xs of [] \<Rightarrow> None | x # ys \<Rightarrow> Some (fold min ys x))"

text \<open>The aggregation \<^verbatim>\<open>'first'\<close>: the first value that is not missing.\<close>

fun series_first :: "'a option list \<Rightarrow> 'a option" where
  "series_first [] = None"
| "series_first (None # xs) = series_first xs"
| "series_first (Some x # xs) = Some x"

section \<open>Record Normalizer: \<^verbatim>\<open>raw_to_dataframe\<close>\<close>

text \<open>
  The raw payload of one city, as the fetch layer hands it over: the hourly block is a
  dictionary of parallel arrays, and the keys \<^verbatim>\<open>hourly\<close>, \<^verbatim>\<open>state\<close>
  and \<^verbatim>\<open>region\<close> may be absent.
\<close>

record hourly_series =
  h_time :: "timestamp list"
  h_temperature_2m :: "real list"
  h_relative_humidity_2m :: "real list"
  h_precipitation :: "real list"
  h_wind_speed_10m :: "real list"
  h_cloud_cover :: "real list"

record payload =
  city_name :: string
  lat :: real
  lon :: real
  p_state :: "string option"
  p_region :: "string option"
  hourly :: "hourly_series option"

definition series_lengths :: "hourly_series \<Rightarrow> nat list" where
  "series_lengths h =
     [length (h_time h), length (h_temperature_2m h), length (h_relative_humidity_2m h),
      length (h_precipitation h), length (h_wind_speed_10m h), length (h_cloud_cover h)]"

definition hourly_columns :: "string list" where
  "hourly_columns =
     [''time'', ''temperature_2m'', ''relative_humidity_2m'', ''precipitation'',
      ''wind_speed_10m'', ''cloud_cover'']"

text \<open>
  The body of the loop over the payloads: \<^verbatim>\<open>city_data['hourly']\<close> raises
  \<^verbatim>\<open>KeyError\<close> on a payload without the block, \<^verbatim>\<open>pd.DataFrame(hourly_data)\<close>
  raises \<^verbatim>\<open>ValueError\<close> on arrays of different lengths, and the city's fields are
  then broadcast over the rows.
\<close>

definition city_frame :: "payload \<Rightarrow> error + observation frame" where
  "city_frame p =
     (case hourly p of
        None \<Rightarrow> Inl (KeyError ''hourly'')
      | Some h \<Rightarrow>
          if \<exists>n \<in> set (series_lengths h). n \<noteq> length (h_time h)
          then Inl (ValueError ''All arrays must be of the same length'')
          else Inr \<lparr>columns =
                      hourly_columns @ [''city'', ''latitude'', ''longitude'']
                      @ (if p_state p \<noteq> None then [''state''] else [])
                      @ (if p_region p \<noteq> None then [''region''] else []),
                    rows =
                      map (\<lambda>i. \<lparr>time = h_time h ! i, city = city_name p,
                                 latitude = lat p, longitude = lon p,
                                 state = p_state p, region = p_region p,
                                 temperature_2m = h_temperature_2m h ! i,
                                 relative_humidity_2m = h_relative_humidity_2m h ! i,
                                 precipitation = h_precipitation h ! i,
                                 wind_speed_10m = h_wind_speed_10m h ! i,
                                 cloud_cover = h_cloud_cover h ! i,
                                 temp_ma = None, temp_anomaly = False\<rparr>)
                          [0 ..< length (h_time h)]\<rparr>)"

fun all_records :: "payload list \<Rightarrow> error + observation frame list" where
  "all_records [] = Inr []"
| "all_records (p # ps) =
     (case city_frame p of
        Inl e \<Rightarrow> Inl e
      | Inr f \<Rightarrow> (case all_records ps of Inl e \<Rightarrow> Inl e | Inr fs \<Rightarrow> Inr (f # fs)))"

text \<open>\<^verbatim>\<open>pd.concat(frames, ignore_index=True)\<close>: the union of the columns, the rows in order.\<close>

definition concat_frames :: "'r frame list \<Rightarrow> 'r frame" where
  "concat_frames fs = \<lparr>columns = unique (concat (map columns fs)), rows = concat (map rows fs)\<rparr>"

definition raw_to_dataframe :: "payload list \<Rightarrow> error + observation frame" where
  "raw_to_dataframe raw_data =
     (case all_records raw_data of
        Inl e \<Rightarrow> Inl e
      | Inr fs \<Rightarrow> if fs = [] then Inr empty_frame else Inr (concat_frames fs))"

section \<open>Daily Aggregator: \<^verbatim>\<open>aggregate_daily_stats\<close>\<close>

record daily_aggregate =
  d_city :: string
  d_date :: int
  temp_mean :: "real option"
  temp_min :: "real option"
  temp_max :: "real option"
  humidity_mean :: "real option"
  precipitation_total :: real
  wind_max :: "real option"
  cloud_cover_mean :: "real option"
  d_latitude :: "real option"
  d_longitude :: "real option"
  d_state :: "string option"
  d_region :: "string option"

text \<open>The columns named by \<^verbatim>\<open>agg_dict\<close>, in the order of the dictionary.\<close>

definition agg_columns :: "observation frame \<Rightarrow> string list" where
  "agg_columns df =
     [''temperature_2m'', ''relative_humidity_2m'', ''precipitation'', ''wind_speed_10m'',
      ''cloud_cover'', ''latitude'', ''longitude'']
     @ (if has_column df ''state'' then [''state''] else [])
     @ (if has_column df ''region'' then [''region''] else [])"

text \<open>
  The number of columns of \<^verbatim>\<open>groupby(...).agg(agg_dict).reset_index()\<close>: the two keys,
  three for the temperature and one for every other entry of \<^verbatim>\<open>agg_dict\<close>.
\<close>

definition agg_width :: "observation frame \<Rightarrow> nat" where
  "agg_width df = 2 + 3 + (length (agg_columns df) - 1)"

definition flat_columns :: "string list" where
  "flat_columns =
     [''city'', ''date'', ''temp_mean'', ''temp_min'', ''temp_max'', ''humidity_mean'',
      ''precipitation_total'', ''wind_max'', ''cloud_cover_mean'', ''latitude'', ''longitude'']"

text \<open>The group keys of \<^verbatim>\<open>groupby(['city', 'date'])\<close>, sorted by city and then date.\<close>

definition group_keys :: "observation list \<Rightarrow> (string \<times> int) list" where
  "group_keys rs = sort_key fst (sort_key snd (unique (map (\<lambda>r. (city r, date_of (time r))) rs)))"

definition group_rows :: "observation list \<Rightarrow> string \<times> int \<Rightarrow> observation list" where
  "group_rows rs k = filter (\<lambda>r. city r = fst k \<and> date_of (time r) = snd k) rs"

definition aggregate_group :: "string \<times> int \<Rightarrow> observation list \<Rightarrow> daily_aggregate" where
  "aggregate_group k g =
     \<lparr>d_city = fst k, d_date = snd k,
      temp_mean = series_mean (map temperature_2m g),
      temp_min = series_min (map temperature_2m g),
      temp_max = series_max (map temperature_2m g),
      humidity_mean = series_mean (map relative_humidity_2m g),
      precipitation_total = series_sum (map precipitation g),
      wind_max = series_max (map wind_speed_10m g),
      cloud_cover_mean = series_mean (map cloud_cover g),
      d_latitude = series_first (map (\<lambda>r. Some (latitude r)) g),
      d_longitude = series_first (map (\<lambda>r. Some (longitude r)) g),
      d_state = None, d_region = None\<rparr>"

text \<open>\<^verbatim>\<open>df.groupby('city')[col].first()\<close> looked up at one city.\<close>

definition city_first :: "(observation \<Rightarrow> 'a option) \<Rightarrow> observation list \<Rightarrow> string \<Rightarrow> 'a option" where
  "city_first col rs c = series_first (map col (filter (\<lambda>r. city r = c) rs))"

definition aggregate_daily_stats :: "observation frame \<Rightarrow> error + daily_aggregate frame" where
  "aggregate_daily_stats df =
     (if \<not> has_column df ''time'' then Inl (KeyError ''time'')
      else if \<not> has_column df ''city'' then Inl (KeyError ''city'')
      else case filter (\<lambda>c. \<not> has_column df c) (agg_columns df) of
        c # _ \<Rightarrow> Inl (KeyError c)
      | [] \<Rightarrow>
          if agg_width df \<noteq> length flat_columns
          then Inl (ValueError ''Length mismatch'')
          else
            let daily = map (\<lambda>k. aggregate_group k (group_rows (rows df) k)) (group_keys (rows df));
                daily1 = (if has_column df ''state''
                          then map (\<lambda>d. d\<lparr>d_state := city_first state (rows df) (d_city d)\<rparr>) daily
                          else daily);
                daily2 = (if has_column df ''region''
                          then map (\<lambda>d. d\<lparr>d_region := city_first region (rows df) (d_city d)\<rparr>) daily1
                          else daily1)
            in Inr \<lparr>columns = flat_columns
                              @ (if has_column df ''state'' then [''state''] else [])
                              @ (if has_column df ''region'' then [''region''] else []),
                    rows = daily2\<rparr>)"

text \<open>
  The normalizer followed by the daily aggregator, as the dashboard's \<^verbatim>\<open>main\<close> chains
  them; an exception of the first step ends the run.
\<close>

definition daily_stats_of_payloads :: "payload list \<Rightarrow> error + daily_aggregate frame" where
  "daily_stats_of_payloads raw_data =
     (case raw_to_dataframe raw_data of Inl e \<Rightarrow> Inl e | Inr df \<Rightarrow> aggregate_daily_stats df)"

section \<open>Alert Generator: \<^verbatim>\<open>generate_alerts\<close>\<close>

text \<open>
  The configuration the processor reads in \<^verbatim>\<open>__init__\<close>: the window of the moving
  average, the multiplier of the anomaly test and the four alert thresholds of
  \<^verbatim>\<open>config['alerts']\<close>.
\<close>

record config =
  ma_window :: int
  anomaly_threshold :: real
  temperature_high_threshold :: real
  temperature_low_threshold :: real
  wind_speed_high_threshold :: real
  precipitation_high_threshold :: real

record alert =
  alert_type :: string
  alert_city :: string
  alert_time :: timestamp
  alert_value :: real
  alert_message :: string

text \<open>UTF-8 of the degree sign in the temperature messages.\<close>

definition degree_sign :: string where
  "degree_sign = [CHR 0xC2, CHR 0xB0]"

text \<open>
  The four alert dictionaries. Python's format \<^verbatim>\<open>:.1f\<close> of a float is library code;
  it is the parameter \<open>fmt\<close>.
\<close>

definition high_temperature_alert :: "(real \<Rightarrow> string) \<Rightarrow> observation \<Rightarrow> alert" where
  "high_temperature_alert fmt r =
     \<lparr>alert_type = ''high_temperature'', alert_city = city r, alert_time = time r,
      alert_value = temperature_2m r,
      alert_message = ''High temperature alert: '' @ fmt (temperature_2m r) @ degree_sign @ ''C''\<rparr>"

definition low_temperature_alert :: "(real \<Rightarrow> string) \<Rightarrow> observation \<Rightarrow> alert" where
  "low_temperature_alert fmt r =
     \<lparr>alert_type = ''low_temperature'', alert_city = city r, alert_time = time r,
      alert_value = temperature_2m r,
      alert_message = ''Low temperature alert: '' @ fmt (temperature_2m r) @ degree_sign @ ''C''\<rparr>"

definition high_wind_alert :: "(real \<Rightarrow> string) \<Rightarrow> observation \<Rightarrow> alert" where
  "high_wind_alert fmt r =
     \<lparr>alert_type = ''high_wind'', alert_city = city r, alert_time = time r,
      alert_value = wind_speed_10m r,
      alert_message = ''High wind alert: '' @ fmt (wind_speed_10m r) @ '' km/h''\<rparr>"

definition heavy_precipitation_alert :: "(real \<Rightarrow> string) \<Rightarrow> observation \<Rightarrow> alert" where
  "heavy_precipitation_alert fmt r =
     \<lparr>alert_type = ''heavy_precipitation'', alert_city = city r, alert_time = time r,
      alert_value = precipitation r,
      alert_message = ''Heavy precipitation alert: '' @ fmt (precipitation r) @ '' mm''\<rparr>"

text \<open>
  One loop \<^verbatim>\<open>for idx, row in df[mask].iterrows(): alerts.append({...})\<close>: the body reads
  \<^verbatim>\<open>row['city']\<close> and \<^verbatim>\<open>row['time']\<close>, so a missing column raises only when some
  row passes the mask.
\<close>

definition append_alerts ::
  "observation frame \<Rightarrow> (observation \<Rightarrow> alert) \<Rightarrow> observation list \<Rightarrow> alert list
   \<Rightarrow> error + alert list" where
  "append_alerts df mk masked alerts =
     (if masked = [] then Inr alerts
      else if \<not> has_column df ''city'' then Inl (KeyError ''city'')
      else if \<not> has_column df ''time'' then Inl (KeyError ''time'')
      else Inr (alerts @ map mk masked))"

definition generate_alerts ::
  "(real \<Rightarrow> string) \<Rightarrow> config \<Rightarrow> observation frame \<Rightarrow> error + alert list" where
  "generate_alerts fmt cfg df =
     (if \<not> has_column df ''temperature_2m'' then Inl (KeyError ''temperature_2m'')
      else
        let high_temp = filter (\<lambda>r. temperature_2m r > temperature_high_threshold cfg) (rows df);
            low_temp = filter (\<lambda>r. temperature_2m r < temperature_low_threshold cfg) (rows df)
        in case append_alerts df (high_temperature_alert fmt) high_temp [] of
             Inl e \<Rightarrow> Inl e
           | Inr alerts1 \<Rightarrow>
        (case append_alerts df (low_temperature_alert fmt) low_temp alerts1 of
             Inl e \<Rightarrow> Inl e
           | Inr alerts2 \<Rightarrow>
        if \<not> has_column df ''wind_speed_10m'' then Inl (KeyError ''wind_speed_10m'')
        else
          let high_wind = filter (\<lambda>r. wind_speed_10m r > wind_speed_high_threshold cfg) (rows df)
          in case append_alerts df (high_wind_alert fmt) high_wind alerts2 of
               Inl e \<Rightarrow> Inl e
             | Inr alerts3 \<Rightarrow>
          if \<not> has_column df ''precipitation'' then Inl (KeyError ''precipitation'')
          else
            let high_precip =
                  filter (\<lambda>r. precipitation r > precipitation_high_threshold cfg) (rows df)
            in append_alerts df (heavy_precipitation_alert fmt) high_precip alerts3))"

section \<open>Signal Enricher: \<^verbatim>\<open>calculate_moving_averages\<close>\<close>

text \<open>The values of a series that are not missing.\<close>

fun present :: "'a option list \<Rightarrow> 'a list" where
  "present [] = []"
| "present (None # xs) = present xs"
| "present (Some x # xs) = x # present xs"

text \<open>
  \<^verbatim>\<open>Series.rolling(window, min_periods)\<close>: at every position the trailing window of at
  most \<open>window\<close> rows ending there. The reduction is applied to the values of the window
  that are not missing when there are at least \<open>min_periods\<close> of them, and the result is
  NaN otherwise.
\<close>

definition rolling ::
  "nat \<Rightarrow> nat \<Rightarrow> (real list \<Rightarrow> 'a option) \<Rightarrow> real option list \<Rightarrow> 'a option list" where
  "rolling window min_periods f xs =
     map (\<lambda>i. let w = present (drop (Suc i - window) (take (Suc i) xs))
              in if length w < min_periods then None else f w)
         [0 ..< length xs]"

text \<open>
  \<^verbatim>\<open>df.loc[mask, col] = values\<close>, where \<open>values\<close> was computed from the rows under the
  mask and so has one value for each of them, in row order.
\<close>

fun assign_where :: "('r \<Rightarrow> bool) \<Rightarrow> ('r \<Rightarrow> 'v \<Rightarrow> 'r) \<Rightarrow> 'r list \<Rightarrow> 'v list \<Rightarrow> 'r list" where
  "assign_where sel upd [] vs = []"
| "assign_where sel upd (r # rs) [] = r # rs"
| "assign_where sel upd (r # rs) (v # vs) =
     (if sel r then upd r v # assign_where sel upd rs vs
      else r # assign_where sel upd rs (v # vs))"

text \<open>The loop \<^verbatim>\<open>for city in df['city'].unique()\<close> of the moving average.\<close>

fun moving_average_loop ::
  "nat \<Rightarrow> string list \<Rightarrow> raw_observation list \<Rightarrow> raw_observation list" where
  "moving_average_loop w [] rs = rs"
| "moving_average_loop w (c # cs) rs =
     moving_average_loop w cs
       (assign_where (\<lambda>r. city r = c) (\<lambda>r v. r\<lparr>temp_ma := v\<rparr>) rs
          (rolling w 1 series_mean (map temperature_2m (filter (\<lambda>r. city r = c) rs))))"

text \<open>
  The column \<^verbatim>\<open>temp_ma\<close> is created by the first assignment, with NaN in the rows not
  yet assigned. \<^verbatim>\<open>rolling\<close> raises \<^verbatim>\<open>ValueError\<close> for a window below
  \<^verbatim>\<open>min_periods = 1\<close>; it is reached only when the table has a city.
\<close>

definition calculate_moving_averages ::
  "config \<Rightarrow> raw_observation frame \<Rightarrow> error + raw_observation frame" where
  "calculate_moving_averages cfg df =
     (if \<not> has_column df ''city'' then Inl (KeyError ''city'')
      else if rows df = [] then Inr df
      else if \<not> has_column df ''temperature_2m'' then Inl (KeyError ''temperature_2m'')
      else if ma_window cfg < 1 then Inl (ValueError ''min_periods 1 must be <= window'')
      else Inr \<lparr>columns = (if has_column df ''temp_ma'' then columns df
                           else columns df @ [''temp_ma'']),
                rows = moving_average_loop (nat (ma_window cfg)) (unique (map city (rows df)))
                         (if has_column df ''temp_ma'' then rows df
                          else map (\<lambda>r. r\<lparr>temp_ma := None\<rparr>) (rows df))\<rparr>)"

section \<open>Summary: \<^verbatim>\<open>get_summary_statistics\<close> and \<^verbatim>\<open>get_regional_statistics\<close>\<close>

text \<open>
  The statistics are Python dictionaries from names to numbers; they are association lists
  in the order of insertion. A number is an integer count, a float or NaN.
\<close>

datatype stat_value = IntValue int | FloatValue real | NaN

type_synonym stats = "(string \<times> stat_value) list"

definition float_or_nan :: "real option \<Rightarrow> stat_value" where
  "float_or_nan v = (case v of None \<Rightarrow> NaN | Some x \<Rightarrow> FloatValue x)"

text \<open>\<^verbatim>\<open>Series.nunique()\<close>.\<close>

definition nunique :: "'a list \<Rightarrow> int" where
  "nunique xs = int (length (unique xs))"

text \<open>The first column of \<open>cs\<close> the table lacks, which the dictionary literal would raise on.\<close>

definition missing_column :: "'r frame \<Rightarrow> string list \<Rightarrow> string option" where
  "missing_column df cs = (case filter (\<lambda>c. \<not> has_column df c) cs of [] \<Rightarrow> None | c # _ \<Rightarrow> Some c)"

definition get_summary_statistics :: "observation frame \<Rightarrow> error + stats" where
  "get_summary_statistics df =
     (if is_empty df
      then Inr [(''total_cities'', IntValue 0), (''total_records'', IntValue 0),
                (''avg_temperature'', FloatValue 0), (''max_temperature'', FloatValue 0),
                (''min_temperature'', FloatValue 0), (''avg_humidity'', FloatValue 0),
                (''total_precipitation'', FloatValue 0), (''max_wind_speed'', FloatValue 0),
                (''anomalies_detected'', IntValue 0)]
      else case missing_column df [''city'', ''temperature_2m'', ''relative_humidity_2m'',
                                   ''precipitation'', ''wind_speed_10m''] of
        Some c \<Rightarrow> Inl (KeyError c)
      | None \<Rightarrow>
          Inr [(''total_cities'', IntValue (nunique (map city (rows df)))),
               (''total_records'', IntValue (int (length (rows df)))),
               (''avg_temperature'', float_or_nan (series_mean (map temperature_2m (rows df)))),
               (''max_temperature'', float_or_nan (series_max (map temperature_2m (rows df)))),
               (''min_temperature'', float_or_nan (series_min (map temperature_2m (rows df)))),
               (''avg_humidity'', float_or_nan (series_mean (map relative_humidity_2m (rows df)))),
               (''total_precipitation'', FloatValue (series_sum (map precipitation (rows df)))),
               (''max_wind_speed'', float_or_nan (series_max (map wind_speed_10m (rows df)))),
               (''anomalies_detected'',
                  IntValue (if has_column df ''temp_anomaly''
                            then int (length (filter temp_anomaly (rows df))) else 0))])"

text \<open>
  The rows \<^verbatim>\<open>df[df['region'] == region]\<close>: a missing region (NaN) equals nothing, not
  even itself.
\<close>

definition region_rows :: "observation list \<Rightarrow> string option \<Rightarrow> observation list" where
  "region_rows rs g = filter (\<lambda>r. g \<noteq> None \<and> region r = g) rs"

text \<open>The dictionary built for one region.\<close>

definition region_stats :: "observation list \<Rightarrow> stats" where
  "region_stats region_df =
     [(''cities'', IntValue (nunique (map city region_df))),
      (''avg_temperature'', float_or_nan (series_mean (map temperature_2m region_df))),
      (''max_temperature'', float_or_nan (series_max (map temperature_2m region_df))),
      (''min_temperature'', float_or_nan (series_min (map temperature_2m region_df))),
      (''avg_humidity'', float_or_nan (series_mean (map relative_humidity_2m region_df))),
      (''total_precipitation'', FloatValue (series_sum (map precipitation region_df))),
      (''max_wind_speed'', float_or_nan (series_max (map wind_speed_10m region_df)))]"

text \<open>\<^verbatim>\<open>d[k] = v\<close> on a dictionary: a present key keeps its place, a new key is appended.\<close>

definition dict_set :: "('k \<times> 'v) list \<Rightarrow> 'k \<Rightarrow> 'v \<Rightarrow> ('k \<times> 'v) list" where
  "dict_set d k v =
     (if k \<in> set (map fst d) then map (\<lambda>kv. if fst kv = k then (k, v) else kv) d
      else d @ [(k, v)])"

fun regional_loop ::
  "observation list \<Rightarrow> string option list \<Rightarrow> (string option \<times> stats) list
   \<Rightarrow> (string option \<times> stats) list" where
  "regional_loop rs [] regional_stats = regional_stats"
| "regional_loop rs (g # gs) regional_stats =
     regional_loop rs gs (dict_set regional_stats g (region_stats (region_rows rs g)))"

definition get_regional_statistics ::
  "observation frame \<Rightarrow> error + (string option \<times> stats) list" where
  "get_regional_statistics df =
     (if is_empty df \<or> \<not> has_column df ''region'' then Inr []
      else case missing_column df [''city'', ''temperature_2m'', ''relative_humidity_2m'',
                                   ''precipitation'', ''wind_speed_10m''] of
        Some c \<Rightarrow> Inl (KeyError c)
      | None \<Rightarrow> Inr (regional_loop (rows df) (unique (map region (rows df))) []))"

section \<open>Pattern Detector: \<^verbatim>\<open>detect_weather_patterns\<close>\<close>

record heat_wave =
  hw_city :: string
  duration_hours :: nat
  max_temp :: "real option"

record cold_front =
  cf_city :: string
  temp_drop :: "real option"
  cf_time :: timestamp

record heavy_rain_event =
  hr_city :: string
  precipitation_3h :: "real option"
  hr_time :: timestamp

record patterns =
  heat_waves :: "heat_wave list"
  cold_fronts :: "cold_front list"
  heavy_rain_events :: "heavy_rain_event list"

text \<open>
  \<^verbatim>\<open>df[df['city'] == city].sort_values('time')\<close>. The sort of the model is stable; pandas'
  default sort may order rows of equal time differently, which matters only for a city with
  repeated timestamps.
\<close>

definition city_series :: "observation list \<Rightarrow> string \<Rightarrow> observation list" where
  "city_series rs c = sort_key time (filter (\<lambda>r. city r = c) rs)"

text \<open>
  \<^verbatim>\<open>heat_wave != heat_wave.shift()\<close>: whether a value differs from its predecessor; the
  first value has the predecessor NaN and always differs.
\<close>

fun changes :: "bool option \<Rightarrow> bool list \<Rightarrow> bool list" where
  "changes prev [] = []"
| "changes prev (b # bs) = (Some b \<noteq> prev) # changes (Some b) bs"

text \<open>\<^verbatim>\<open>cumsum()\<close> of a boolean series, from the running total \<open>acc\<close>.\<close>

fun cumsum :: "nat \<Rightarrow> bool list \<Rightarrow> nat list" where
  "cumsum acc [] = []"
| "cumsum acc (b # bs) = (acc + of_bool b) # cumsum (acc + of_bool b) bs"

definition heat_group :: "bool list \<Rightarrow> nat list" where
  "heat_group hw = cumsum 0 (changes None hw)"

text \<open>
  \<^verbatim>\<open>city_df[city_df['heat_wave']].groupby('heat_group').size()\<close>: for every group number
  of a hot hour, in ascending order, the number of hot hours that carry it.
\<close>

definition heat_sequences :: "bool list \<Rightarrow> (nat \<times> nat) list" where
  "heat_sequences hw =
     (let groups = map snd (filter fst (zip hw (heat_group hw)))
      in map (\<lambda>g. (g, length (filter (\<lambda>x. x = g) groups))) (sort (unique groups)))"

definition detect_heat_wave :: "string \<Rightarrow> observation list \<Rightarrow> heat_wave list" where
  "detect_heat_wave c city_df =
     (let hw = map (\<lambda>r. temperature_2m r > 35) city_df;
          sizes = map snd (heat_sequences hw)
      in if list_ex (\<lambda>n. n \<ge> 3) sizes
         then [\<lparr>hw_city = c,
                duration_hours = (case sizes of [] \<Rightarrow> 0 | n # ns \<Rightarrow> fold max ns n),
                max_temp = series_max (map temperature_2m
                             (filter (\<lambda>r. temperature_2m r > 35) city_df))\<rparr>]
         else [])"

text \<open>\<^verbatim>\<open>Series.diff(periods=n)\<close>: the difference to the value \<open>n\<close> rows earlier, NaN in the first \<open>n\<close> rows.\<close>

definition diff_periods :: "nat \<Rightarrow> real list \<Rightarrow> real option list" where
  "diff_periods n xs =
     map (\<lambda>i. if i < n then None else Some (xs ! i - xs ! (i - n))) [0 ..< length xs]"

text \<open>
  The rows of the series whose derived value passes a comparison; a comparison with NaN is
  false. Each row is kept with its derived value.
\<close>

definition rows_where ::
  "(real \<Rightarrow> bool) \<Rightarrow> observation list \<Rightarrow> real option list \<Rightarrow> (observation \<times> real option) list" where
  "rows_where P city_df vs =
     filter (\<lambda>rv. case snd rv of None \<Rightarrow> False | Some x \<Rightarrow> P x) (zip city_df vs)"

definition detect_cold_front :: "string \<Rightarrow> observation list \<Rightarrow> cold_front list" where
  "detect_cold_front c city_df =
     (let temp_change_24h = diff_periods 24 (map temperature_2m city_df);
          cold = rows_where (\<lambda>x. x < - 10) city_df temp_change_24h
      in case cold of
           [] \<Rightarrow> []
         | rv # _ \<Rightarrow> [\<lparr>cf_city = c,
                        temp_drop = series_min (List.map_filter snd cold),
                        cf_time = time (fst rv)\<rparr>])"

definition detect_heavy_rain :: "string \<Rightarrow> observation list \<Rightarrow> heavy_rain_event list" where
  "detect_heavy_rain c city_df =
     (let precip_3h = rolling 3 3 (\<lambda>w. Some (series_sum w))
                         (map (\<lambda>r. Some (precipitation r)) city_df);
          heavy_rain = rows_where (\<lambda>x. x > 30) city_df precip_3h
      in case heavy_rain of
           [] \<Rightarrow> []
         | rv # _ \<Rightarrow> [\<lparr>hr_city = c,
                        precipitation_3h = series_max (List.map_filter snd heavy_rain),
                        hr_time = time (fst rv)\<rparr>])"

text \<open>
  The three loops over \<^verbatim>\<open>df['city'].unique()\<close> append at most one finding per city. A
  missing column raises at its first use: city, time and temperature in the first loop,
  precipitation in the third.
\<close>

definition detect_weather_patterns :: "observation frame \<Rightarrow> error + patterns" where
  "detect_weather_patterns df =
     (if is_empty df then Inr \<lparr>heat_waves = [], cold_fronts = [], heavy_rain_events = []\<rparr>
      else case missing_column df [''city'', ''time'', ''temperature_2m'', ''precipitation''] of
        Some c \<Rightarrow> Inl (KeyError c)
      | None \<Rightarrow>
          Inr \<lparr>heat_waves =
                 concat (map (\<lambda>c. detect_heat_wave c (city_series (rows df) c))
                           (unique (map city (rows df)))),
               cold_fronts =
                 concat (map (\<lambda>c. detect_cold_front c (city_series (rows df) c))
                           (unique (map city (rows df)))),
               heavy_rain_events =
                 concat (map (\<lambda>c. detect_heavy_rain c (city_series (rows df) c))
                           (unique (map city (rows df))))\<rparr>)"

section \<open>Notions used in the statements\<close>

text \<open>
  A payload the normalizer cannot turn into rows: its hourly block is absent, or two of the
  block's arrays differ in length. The error such a payload raises.
\<close>

definition malformed :: "payload \<Rightarrow> bool" where
  "malformed p =
     (case hourly p of
        None \<Rightarrow> True
      | Some h \<Rightarrow> \<exists>m \<in> set (series_lengths h). \<exists>n \<in> set (series_lengths h). m \<noteq> n)"

definition payload_error :: "payload \<Rightarrow> error" where
  "payload_error p =
     (if hourly p = None then KeyError ''hourly''
      else ValueError ''All arrays must be of the same length'')"

text \<open>
  The temperatures of the trailing window of row \<open>i\<close>: of the rows of the same city up
  to and including row \<open>i\<close>, the last \<open>w\<close> (all of them when there are fewer).
\<close>

definition trailing_temps :: "nat \<Rightarrow> raw_observation list \<Rightarrow> nat \<Rightarrow> real option list" where
  "trailing_temps w rs i =
     (let temps = map temperature_2m (filter (\<lambda>q. city q = city (rs ! i)) (take (Suc i) rs))
      in drop (length temps - w) temps)"





text \<open>
  The hot hours of a city's time-sorted series, and whether a boolean series holds \<open>n\<close>
  consecutive true values.
\<close>

definition hot_hours :: "observation list \<Rightarrow> string \<Rightarrow> bool list" where
  "hot_hours rs c = map (\<lambda>r. temperature_2m r > 35) (city_series rs c)"

definition has_run :: "bool list \<Rightarrow> nat \<Rightarrow> bool" where
  "has_run bs n = (\<exists>i. i + n \<le> length bs \<and> (\<forall>j<n. bs ! (i + j)))"

section \<open>Concrete inputs\<close>

definition payload_without_hourly :: payload where
  "payload_without_hourly =
     \<lparr>city_name = ''Recife'', lat = -8, lon = -35, p_state = None, p_region = None,
      hourly = None\<rparr>"

definition payload_ragged :: payload where
  "payload_ragged =
     \<lparr>city_name = ''Recife'', lat = -8, lon = -35, p_state = None, p_region = None,
      hourly = Some \<lparr>h_time = [0, 3600], h_temperature_2m = [25], h_relative_humidity_2m = [60, 61],
                     h_precipitation = [0, 0], h_wind_speed_10m = [10, 11], h_cloud_cover = [30, 31]\<rparr>\<rparr>"

definition payload_single_hour_region :: payload where
  "payload_single_hour_region =
     \<lparr>city_name = ''Recife'', lat = -8, lon = -35, p_state = None, p_region = Some ''Nordeste'',
      hourly = Some \<lparr>h_time = [0], h_temperature_2m = [25], h_relative_humidity_2m = [60],
                     h_precipitation = [1], h_wind_speed_10m = [10], h_cloud_cover = [30]\<rparr>\<rparr>"

text \<open>The thresholds of the test suite's configuration.\<close>

definition sample_config :: config where
  "sample_config =
     \<lparr>ma_window = 3, anomaly_threshold = 2,
      temperature_high_threshold = 35, temperature_low_threshold = 5,
      wind_speed_high_threshold = 60, precipitation_high_threshold = 50\<rparr>"

definition observation_columns :: "string list" where
  "observation_columns =
     [''time'', ''temperature_2m'', ''relative_humidity_2m'', ''precipitation'',
      ''wind_speed_10m'', ''cloud_cover'', ''city'', ''latitude'', ''longitude'']"

definition obs :: "string \<Rightarrow> timestamp \<Rightarrow> real \<Rightarrow> real \<Rightarrow> real \<Rightarrow> observation" where
  "obs c t temp wind rain =
     \<lparr>time = t, city = c, latitude = 0, longitude = 0, state = None, region = None,
      temperature_2m = temp, relative_humidity_2m = 60, precipitation = rain,
      wind_speed_10m = wind, cloud_cover = 30, temp_ma = None, temp_anomaly = False\<rparr>"

definition hot_row_frame :: "observation frame" where
  "hot_row_frame = \<lparr>columns = observation_columns, rows = [obs ''Test City'' 0 40 10 0]\<rparr>"

text \<open>A row whose temperature is as the API delivers it, possibly missing.\<close>

definition raw_obs :: "string \<Rightarrow> timestamp \<Rightarrow> real option \<Rightarrow> raw_observation" where
  "raw_obs c t temp =
     \<lparr>time = t, city = c, latitude = 0, longitude = 0, state = None, region = None,
      temperature_2m = temp, relative_humidity_2m = 60, precipitation = 0,
      wind_speed_10m = 10, cloud_cover = 30, temp_ma = None, temp_anomaly = False\<rparr>"

text \<open>The three hourly temperatures of the test suite's sample table.\<close>

definition sample_frame :: "raw_observation frame" where
  "sample_frame =
     \<lparr>columns = observation_columns,
      rows = [raw_obs ''City1'' 0 (Some 20), raw_obs ''City1'' 3600 (Some 25),
              raw_obs ''City1'' 7200 (Some 30)]\<rparr>"

text \<open>Three hourly rows of one city; the API had no temperature for the first hour.\<close>

definition missing_frame :: "raw_observation frame" where
  "missing_frame =
     \<lparr>columns = observation_columns,
      rows = [raw_obs ''City1'' 0 None, raw_obs ''City1'' 3600 (Some 25),
              raw_obs ''City1'' 7200 (Some 26)]\<rparr>"

text \<open>Three rows of two cities of one region, one of them flagged as anomalous.\<close>

definition regional_frame :: "observation frame" where
  "regional_frame =
     \<lparr>columns = observation_columns @ [''region'', ''temp_anomaly''],
      rows = [(obs ''Curitiba'' 0 20 10 0)\<lparr>region := Some ''Sul''\<rparr>,
              (obs ''Curitiba'' 3600 25 15 1)\<lparr>region := Some ''Sul'', temp_anomaly := True\<rparr>,
              (obs ''Porto Alegre'' 0 30 20 2)\<lparr>region := Some ''Sul''\<rparr>]\<rparr>"



text \<open>Five hourly rows of one city: the hours 1 to 3 are above 35 degrees, the others are not.\<close>

definition heat_frame :: "observation frame" where
  "heat_frame =
     \<lparr>columns = observation_columns,
      rows = [obs ''Cuiaba'' 0 30 10 0, obs ''Cuiaba'' 3600 36 10 0, obs ''Cuiaba'' 7200 37 10 0,
              obs ''Cuiaba'' 10800 38 10 0, obs ''Cuiaba'' 14400 30 10 0]\<rparr>"

section \<open>Properties of the normalizer and the daily aggregator\<close>

lemma all_records_fails:
  assumes "p \<in> set raw_data" and "city_frame p = Inl e"
  shows "\<exists>e'. all_records raw_data = Inl e'"
  using assms
proof (induction raw_data)
  case Nil
  then show ?case by simp
next
  case (Cons q qs)
  show ?case
  proof (cases "city_frame q")
    case (Inl a)
    then show ?thesis by simp
  next
    case (Inr f)
    with Cons have "\<exists>e'. all_records qs = Inl e'" by auto
    with Inr show ?thesis by auto
  qed
qed

lemma city_frame_error:
  assumes "city_frame p = Inl e"
  shows "e = KeyError ''hourly'' \<or> e = ValueError ''All arrays must be of the same length''"
  using assms by (auto simp: city_frame_def split: option.splits if_splits)

lemma all_records_error:
  assumes "all_records raw_data = Inl e"
  shows "e = KeyError ''hourly'' \<or> e = ValueError ''All arrays must be of the same length''"
  using assms
proof (induction raw_data)
  case Nil
  then show ?case by simp
next
  case (Cons q qs)
  then show ?case
    by (auto split: sum.splits dest: city_frame_error)
qed

lemma city_frame_malformed:
  assumes "hourly p = None \<or>
           (\<exists>h. hourly p = Some h \<and>
                (\<exists>m \<in> set (series_lengths h). \<exists>n \<in> set (series_lengths h). m \<noteq> n))"
  shows "\<exists>e. city_frame p = Inl e"
proof -
  have "\<exists>n \<in> set (series_lengths h). n \<noteq> length (h_time h)"
    if "m \<in> set (series_lengths h)" "n \<in> set (series_lengths h)" "m \<noteq> n" for h m n
    using that by metis
  with assms show ?thesis
    by (fastforce simp: city_frame_def split: option.splits)
qed

text \<open>
  C1 (as stated, refuted). A payload without its hourly block makes the normalizer fail,
  but with the \<^verbatim>\<open>KeyError\<close> of the dictionary access, not with a
  \<^verbatim>\<open>DataShapeError\<close>.
\<close>

theorem raw_to_dataframe_not_DataShapeError:
  "hourly payload_without_hourly = None \<and>
   raw_to_dataframe [payload_without_hourly] = Inl (KeyError ''hourly'') \<and>
   raw_to_dataframe [payload_without_hourly] \<noteq> Inl DataShapeError"
  by (simp add: raw_to_dataframe_def city_frame_def payload_without_hourly_def)

lemma city_frame_malformed_error:
  assumes "malformed p"
  shows "city_frame p = Inl (payload_error p)"
proof (cases "hourly p")
  case None
  then show ?thesis by (simp add: city_frame_def payload_error_def)
next
  case (Some h)
  with assms have "\<exists>m \<in> set (series_lengths h). \<exists>n \<in> set (series_lengths h). m \<noteq> n"
    by (simp add: malformed_def)
  then obtain m n where "m \<in> set (series_lengths h)" "n \<in> set (series_lengths h)" "m \<noteq> n"
    by blast
  then have "\<exists>n \<in> set (series_lengths h). n \<noteq> length (h_time h)"
    by metis
  with Some show ?thesis by (simp add: city_frame_def payload_error_def)
qed

lemma city_frame_well_formed:
  assumes "\<not> malformed p"
  shows "\<exists>f. city_frame p = Inr f"
proof -
  from assms obtain h where h: "hourly p = Some h"
    and eq: "\<forall>m \<in> set (series_lengths h). \<forall>n \<in> set (series_lengths h). m = n"
    by (auto simp: malformed_def split: option.splits)
  have "length (h_time h) \<in> set (series_lengths h)"
    by (simp add: series_lengths_def)
  with eq have "\<not> (\<exists>n \<in> set (series_lengths h). n \<noteq> length (h_time h))"
    by blast
  with h show ?thesis by (simp add: city_frame_def)
qed

lemma all_records_first_malformed:
  assumes "List.find malformed raw_data = Some bad"
  shows "all_records raw_data = Inl (payload_error bad)"
  using assms
proof (induction raw_data)
  case Nil
  then show ?case by simp
next
  case (Cons q qs)
  show ?case
  proof (cases "malformed q")
    case True
    with Cons.prems have "bad = q" by simp
    with True show ?thesis by (simp add: city_frame_malformed_error)
  next
    case False
    with Cons.prems have "List.find malformed qs = Some bad" by simp
    with Cons.IH have "all_records qs = Inl (payload_error bad)" .
    moreover from city_frame_well_formed [OF False] obtain f where "city_frame q = Inr f" ..
    ultimately show ?thesis by simp
  qed
qed

text \<open>
  C1 (amended). Whenever the input sequence contains a payload that lacks its hourly block
  or whose hourly arrays do not all have the same length, \<^verbatim>\<open>raw_to_dataframe\<close>
  returns no table, so nothing is truncated silently: it fails with the error of the first
  such payload in input order, the \<^verbatim>\<open>KeyError\<close> of the key \<^verbatim>\<open>hourly\<close> when
  that payload has no hourly block and the \<^verbatim>\<open>ValueError\<close> of the ragged arrays
  otherwise.
\<close>

theorem raw_to_dataframe_rejects_malformed:
  assumes "p \<in> set raw_data"
    and "hourly p = None \<or>
         (\<exists>h. hourly p = Some h \<and>
              (\<exists>m \<in> set (series_lengths h). \<exists>n \<in> set (series_lengths h). m \<noteq> n))"
  shows "\<exists>bad. List.find malformed raw_data = Some bad \<and>
           raw_to_dataframe raw_data =
             Inl (if hourly bad = None then KeyError ''hourly''
                  else ValueError ''All arrays must be of the same length'')"
proof -
  have "malformed p"
  proof (cases "hourly p")
    case None
    then show ?thesis by (simp add: malformed_def)
  next
    case (Some h)
    with assms(2)
    have "\<exists>m \<in> set (series_lengths h). \<exists>n \<in> set (series_lengths h). m \<noteq> n"
      by simp
    with Some show ?thesis by (simp add: malformed_def)
  qed
  with assms(1) have "List.find malformed raw_data \<noteq> None"
    by (auto simp: find_None_iff)
  then obtain bad where bad: "List.find malformed raw_data = Some bad"
    by blast
  from all_records_first_malformed [OF bad]
  have "raw_to_dataframe raw_data = Inl (payload_error bad)"
    by (simp add: raw_to_dataframe_def)
  with bad show ?thesis
    by (simp add: payload_error_def)
qed

theorem raw_to_dataframe_rejects_malformed_witness:
  "payload_ragged \<in> set [payload_without_hourly, payload_ragged] \<and>
   (\<exists>h. hourly payload_ragged = Some h \<and>
        (\<exists>m \<in> set (series_lengths h). \<exists>n \<in> set (series_lengths h). m \<noteq> n)) \<and>
   raw_to_dataframe [payload_without_hourly, payload_ragged] = Inl (KeyError ''hourly'') \<and>
   raw_to_dataframe [payload_ragged, payload_without_hourly]
     = Inl (ValueError ''All arrays must be of the same length'')"
proof -
  have m: "payload_ragged \<in> set [payload_without_hourly, payload_ragged]"
    "payload_ragged \<in> set [payload_ragged, payload_without_hourly]"
    by simp_all
  have r: "\<exists>h. hourly payload_ragged = Some h \<and>
        (\<exists>m \<in> set (series_lengths h). \<exists>n \<in> set (series_lengths h). m \<noteq> n)"
    by (simp add: payload_ragged_def series_lengths_def)
  have m1: "malformed payload_without_hourly"
    by (simp add: malformed_def payload_without_hourly_def)
  from r obtain h where h: "hourly payload_ragged = Some h"
    and ex: "\<exists>m \<in> set (series_lengths h). \<exists>n \<in> set (series_lengths h). m \<noteq> n"
    by (elim exE conjE)
  have m2: "malformed payload_ragged"
    using ex by (simp add: malformed_def h)
  have f1: "List.find malformed [payload_without_hourly, payload_ragged]
            = Some payload_without_hourly"
    by (simp add: m1)
  have f2: "List.find malformed [payload_ragged, payload_without_hourly] = Some payload_ragged"
    by (simp add: m2)
  have h1: "hourly payload_without_hourly = None"
    by (simp add: payload_without_hourly_def)
  have h2: "hourly payload_ragged \<noteq> None"
    by (simp add: payload_ragged_def)
  from raw_to_dataframe_rejects_malformed [OF m(1) disjI2 [OF r]] f1 h1
  have 1: "raw_to_dataframe [payload_without_hourly, payload_ragged] = Inl (KeyError ''hourly'')"
    by auto
  from raw_to_dataframe_rejects_malformed [OF m(2) disjI2 [OF r]] f2 h2
  have 2: "raw_to_dataframe [payload_ragged, payload_without_hourly]
     = Inl (ValueError ''All arrays must be of the same length'')"
    by auto
  from m(1) r 1 2 show ?thesis by (intro conjI)
qed

text \<open>
  C2 (the code at the failing input). The normalizer turns the empty payload sequence into
  the table without fields, and on that table the daily aggregator raises the
  \<^verbatim>\<open>KeyError\<close> of \<^verbatim>\<open>df['time']\<close> instead of returning an empty table.
\<close>

theorem aggregate_daily_stats_empty_raises:
  "raw_to_dataframe [] = Inr empty_frame \<and>
   aggregate_daily_stats empty_frame = Inl (KeyError ''time'')"
  by (simp add: raw_to_dataframe_def aggregate_daily_stats_def has_column_def empty_frame_def)

text \<open>
  The round trip of a single hour succeeds for a payload that carries neither a state nor
  a region: the one daily row repeats the hour's values.
\<close>

lemma single_hour_round_trip:
  assumes "hourly p = Some h" and "p_state p = None" and "p_region p = None"
    and "h_time h = [t]" and "h_temperature_2m h = [temp]" and "h_relative_humidity_2m h = [hum]"
    and "h_precipitation h = [pr]" and "h_wind_speed_10m h = [w]" and "h_cloud_cover h = [cc]"
  shows "daily_stats_of_payloads [p] =
         Inr \<lparr>columns = flat_columns,
              rows = [\<lparr>d_city = city_name p, d_date = date_of t,
                       temp_mean = Some temp, temp_min = Some temp, temp_max = Some temp,
                       humidity_mean = Some hum, precipitation_total = pr, wind_max = Some w,
                       cloud_cover_mean = Some cc, d_latitude = Some (lat p),
                       d_longitude = Some (lon p), d_state = None, d_region = None\<rparr>]\<rparr>"
  using assms
  by (simp add: daily_stats_of_payloads_def raw_to_dataframe_def city_frame_def
      series_lengths_def concat_frames_def unique_def
      hourly_columns_def aggregate_daily_stats_def has_column_def agg_columns_def agg_width_def
      flat_columns_def group_keys_def group_rows_def aggregate_group_def
      series_mean_def series_sum_def series_max_def series_min_def)

text \<open>
  C10 (the code at the failing input). A single-city, single-hour payload that carries a
  region makes the aggregation include the region column, so the result has twelve columns
  and the assignment of the eleven flat column names raises \<^verbatim>\<open>ValueError\<close>: no daily
  row is produced.
\<close>

theorem single_hour_with_region_raises:
  "daily_stats_of_payloads [payload_single_hour_region] = Inl (ValueError ''Length mismatch'')"
  by (simp add: daily_stats_of_payloads_def raw_to_dataframe_def city_frame_def
      payload_single_hour_region_def series_lengths_def concat_frames_def unique_def
      hourly_columns_def aggregate_daily_stats_def has_column_def agg_columns_def agg_width_def
      flat_columns_def)

section \<open>Properties of the alert generator\<close>

lemma generate_alerts_eq:
  assumes "has_column df ''temperature_2m''" "has_column df ''wind_speed_10m''"
    "has_column df ''precipitation''" "has_column df ''city''" "has_column df ''time''"
  shows "generate_alerts fmt cfg df =
         Inr (map (high_temperature_alert fmt)
                (filter (\<lambda>r. temperature_2m r > temperature_high_threshold cfg) (rows df))
              @ map (low_temperature_alert fmt)
                (filter (\<lambda>r. temperature_2m r < temperature_low_threshold cfg) (rows df))
              @ map (high_wind_alert fmt)
                (filter (\<lambda>r. wind_speed_10m r > wind_speed_high_threshold cfg) (rows df))
              @ map (heavy_precipitation_alert fmt)
                (filter (\<lambda>r. precipitation r > precipitation_high_threshold cfg) (rows df)))"
  using assms by (simp add: generate_alerts_def append_alerts_def Let_def)

lemma filter_type_map:
  assumes "\<And>r. alert_type (mk r) = ty'"
  shows "filter (\<lambda>a. alert_type a = ty) (map mk rs) = (if ty' = ty then map mk rs else [])"
  using assms by (induction rs) auto

lemma alert_types [simp]:
  "alert_type (high_temperature_alert fmt r) = ''high_temperature''"
  "alert_type (low_temperature_alert fmt r) = ''low_temperature''"
  "alert_type (high_wind_alert fmt r) = ''high_wind''"
  "alert_type (heavy_precipitation_alert fmt r) = ''heavy_precipitation''"
  by (simp_all add: high_temperature_alert_def low_temperature_alert_def high_wind_alert_def
      heavy_precipitation_alert_def)

lemma alert_cores [simp]:
  "alert_city (high_temperature_alert fmt r) = city r"
  "alert_time (high_temperature_alert fmt r) = time r"
  "alert_value (high_temperature_alert fmt r) = temperature_2m r"
  "alert_city (low_temperature_alert fmt r) = city r"
  "alert_time (low_temperature_alert fmt r) = time r"
  "alert_value (low_temperature_alert fmt r) = temperature_2m r"
  "alert_city (high_wind_alert fmt r) = city r"
  "alert_time (high_wind_alert fmt r) = time r"
  "alert_value (high_wind_alert fmt r) = wind_speed_10m r"
  "alert_city (heavy_precipitation_alert fmt r) = city r"
  "alert_time (heavy_precipitation_alert fmt r) = time r"
  "alert_value (heavy_precipitation_alert fmt r) = precipitation r"
  by (simp_all add: high_temperature_alert_def low_temperature_alert_def high_wind_alert_def
      heavy_precipitation_alert_def)

text \<open>
  C3. On a table that has the columns the generator reads, the alerts are returned grouped
  by type (all high-temperature alerts, then low-temperature, high-wind and
  heavy-precipitation ones); the alerts of each type are, in row order, one for every row
  that violates the type's predicate, with the row's city and time and the triggering
  measurement as value. With \<open>T_hi = 35\<close>, a one-row table whose temperature is 40 gives
  exactly one high-temperature alert, of value 40.
\<close>

theorem generate_alerts_grouped_by_type:
  assumes "has_column df ''temperature_2m''" "has_column df ''wind_speed_10m''"
    "has_column df ''precipitation''" "has_column df ''city''" "has_column df ''time''"
  shows "\<exists>alerts. generate_alerts fmt cfg df = Inr alerts \<and>
     alerts = filter (\<lambda>a. alert_type a = ''high_temperature'') alerts
            @ filter (\<lambda>a. alert_type a = ''low_temperature'') alerts
            @ filter (\<lambda>a. alert_type a = ''high_wind'') alerts
            @ filter (\<lambda>a. alert_type a = ''heavy_precipitation'') alerts \<and>
     map (\<lambda>a. (alert_city a, alert_time a, alert_value a))
         (filter (\<lambda>a. alert_type a = ''high_temperature'') alerts)
       = map (\<lambda>r. (city r, time r, temperature_2m r))
           (filter (\<lambda>r. temperature_2m r > temperature_high_threshold cfg) (rows df)) \<and>
     map (\<lambda>a. (alert_city a, alert_time a, alert_value a))
         (filter (\<lambda>a. alert_type a = ''low_temperature'') alerts)
       = map (\<lambda>r. (city r, time r, temperature_2m r))
           (filter (\<lambda>r. temperature_2m r < temperature_low_threshold cfg) (rows df)) \<and>
     map (\<lambda>a. (alert_city a, alert_time a, alert_value a))
         (filter (\<lambda>a. alert_type a = ''high_wind'') alerts)
       = map (\<lambda>r. (city r, time r, wind_speed_10m r))
           (filter (\<lambda>r. wind_speed_10m r > wind_speed_high_threshold cfg) (rows df)) \<and>
     map (\<lambda>a. (alert_city a, alert_time a, alert_value a))
         (filter (\<lambda>a. alert_type a = ''heavy_precipitation'') alerts)
       = map (\<lambda>r. (city r, time r, precipitation r))
           (filter (\<lambda>r. precipitation r > precipitation_high_threshold cfg) (rows df)) \<and>
     (\<forall>r. temperature_high_threshold cfg = 35 \<and> rows df = [r] \<and> temperature_2m r = 40 \<longrightarrow>
          filter (\<lambda>a. alert_type a = ''high_temperature'') alerts
            = [high_temperature_alert fmt r] \<and>
          alert_value (high_temperature_alert fmt r) = 40)"
  unfolding generate_alerts_eq [OF assms]
  by (simp add: filter_type_map o_def)

theorem generate_alerts_grouped_by_type_witness:
  "has_column hot_row_frame ''temperature_2m'' \<and> has_column hot_row_frame ''wind_speed_10m'' \<and>
   has_column hot_row_frame ''precipitation'' \<and> has_column hot_row_frame ''city'' \<and>
   has_column hot_row_frame ''time'' \<and>
   temperature_high_threshold sample_config = 35 \<and>
   rows hot_row_frame = [obs ''Test City'' 0 40 10 0] \<and>
   temperature_2m (obs ''Test City'' 0 40 10 0) = 40 \<and>
   (\<exists>alerts. generate_alerts (\<lambda>x. ''40.0'') sample_config hot_row_frame = Inr alerts \<and>
      filter (\<lambda>a. alert_type a = ''high_temperature'') alerts
        = [high_temperature_alert (\<lambda>x. ''40.0'') (obs ''Test City'' 0 40 10 0)] \<and>
      alert_value (high_temperature_alert (\<lambda>x. ''40.0'') (obs ''Test City'' 0 40 10 0)) = 40)"
proof -
  have c: "has_column hot_row_frame ''temperature_2m''" "has_column hot_row_frame ''wind_speed_10m''"
    "has_column hot_row_frame ''precipitation''" "has_column hot_row_frame ''city''"
    "has_column hot_row_frame ''time''"
    by (simp_all add: has_column_def hot_row_frame_def observation_columns_def)
  have h: "temperature_high_threshold sample_config = 35"
    "rows hot_row_frame = [obs ''Test City'' 0 40 10 0]"
    "temperature_2m (obs ''Test City'' 0 40 10 0) = 40"
    by (simp_all add: sample_config_def hot_row_frame_def obs_def)
  from generate_alerts_grouped_by_type [OF c, of "\<lambda>x. ''40.0''" sample_config] c h show ?thesis
    by blast
qed

section \<open>Properties of the signal enricher\<close>

lemma unique_acc_set: "set (unique_acc seen xs) = set xs - set seen"
  by (induction xs arbitrary: seen) auto

lemma unique_acc_distinct: "distinct (unique_acc seen xs)"
  by (induction xs arbitrary: seen) (auto simp: unique_acc_set)

lemma set_unique [simp]: "set (unique xs) = set xs"
  by (simp add: unique_def unique_acc_set)

lemma distinct_unique [simp]: "distinct (unique xs)"
  by (simp add: unique_def unique_acc_distinct)

lemma fold_add: "fold (\<lambda>x s. s + x) xs (a::real) = a + sum_list xs"
  by (induction xs arbitrary: a) auto

lemma series_sum_eq: "series_sum xs = sum_list xs"
  by (simp add: series_sum_def fold_add)

lemma length_assign_where [simp]: "length (assign_where sel upd rs vs) = length rs"
  by (induction sel upd rs vs rule: assign_where.induct) auto

lemma map_assign_where:
  assumes "\<And>r v. f (upd r v) = f r"
  shows "map f (assign_where sel upd rs vs) = map f rs"
  using assms by (induction sel upd rs vs rule: assign_where.induct) auto

lemma nth_assign_where:
  assumes "length vs = length (filter sel rs)" and "i < length rs"
  shows "assign_where sel upd rs vs ! i =
         (if sel (rs ! i) then upd (rs ! i) (vs ! length (filter sel (take i rs))) else rs ! i)"
  using assms
proof (induction sel upd rs vs arbitrary: i rule: assign_where.induct)
  case (1 sel upd vs)
  then show ?case by simp
next
  case (2 sel upd r rs)
  then have "filter sel (r # rs) = []" by simp
  then have "\<not> sel ((r # rs) ! i)"
    using "2.prems"(2) by (metis filter_empty_conv nth_mem)
  then show ?case by simp
next
  case (3 sel upd r rs v vs)
  show ?case
  proof (cases i)
    case 0
    then show ?thesis by simp
  next
    case (Suc j)
    with "3.prems" show ?thesis
      by (cases "sel r") (simp_all add: "3.IH")
  qed
qed

lemma filter_take_prefix:
  "filter P (take n xs) = take (length (filter P (take n xs))) (filter P xs)"
proof -
  have "filter P xs = filter P (take n xs) @ filter P (drop n xs)"
    by (metis append_take_drop_id filter_append)
  then show ?thesis by simp
qed

lemma length_rolling [simp]: "length (rolling w m f xs) = length xs"
  by (simp add: rolling_def)

lemma nth_rolling:
  assumes "k < length xs"
  shows "rolling w m f xs ! k =
         (if length (present (drop (Suc k - w) (take (Suc k) xs))) < m then None
          else f (present (drop (Suc k - w) (take (Suc k) xs))))"
  using assms by (simp add: rolling_def Let_def)

lemma series_mean_eq:
  "xs \<noteq> [] \<Longrightarrow> series_mean xs = Some (sum_list xs / real (length xs))"
  by (simp add: series_mean_def series_sum_eq)

lemma present_map_Some [simp]: "present (map Some xs) = xs"
  by (induction xs) simp_all

lemma present_single [simp]: "series_mean (present [v]) = v"
  by (cases v) (simp_all add: series_mean_def series_sum_def)

lemma trailing_temps_cong:
  assumes "map city rs' = map city rs" and "map temperature_2m rs' = map temperature_2m rs"
    and "i < length rs"
  shows "trailing_temps w rs' i = trailing_temps w rs i"
proof -
  have len: "length rs' = length rs"
    using assms(1) by (metis length_map)
  have c: "city (rs' ! i) = city (rs ! i)"
    using assms(1,3) len by (metis nth_map)
  have "map temperature_2m (filter (\<lambda>q. city q = c') (take n rs'))
      = map temperature_2m (filter (\<lambda>q. city q = c') (take n rs))" for c' n
    using assms(1,2)
  proof (induction rs' arbitrary: rs n)
    case Nil
    then show ?case by simp
  next
    case (Cons a as)
    then obtain b bs where rs: "rs = b # bs" by (cases rs) auto
    with Cons.prems have ab: "city a = city b" "temperature_2m a = temperature_2m b"
      and tl: "map city as = map city bs" "map temperature_2m as = map temperature_2m bs"
      by auto
    show ?case
    proof (cases n)
      case 0
      then show ?thesis by simp
    next
      case (Suc m)
      with Cons.IH [OF tl, of m] ab rs show ?thesis by simp
    qed
  qed
  then show ?thesis
    by (simp add: trailing_temps_def c Let_def)
qed

lemma moving_average_step:
  fixes c :: string
  assumes "i < length rs" and "1 \<le> w"
  defines "rs' \<equiv> assign_where (\<lambda>r. city r = c) (\<lambda>r v. r\<lparr>temp_ma := v\<rparr>) rs
                    (rolling w 1 series_mean (map temperature_2m (filter (\<lambda>r. city r = c) rs)))"
  shows "temp_ma (rs' ! i) =
         (if city (rs ! i) = c then series_mean (present (trailing_temps w rs i))
          else temp_ma (rs ! i))"
proof (cases "city (rs ! i) = c")
  case False
  then show ?thesis
    unfolding rs'_def using assms(1) by (simp add: nth_assign_where)
next
  case True
  let ?P = "\<lambda>r. city r = c"
  let ?k = "length (filter ?P (take i rs))"
  let ?xs = "map temperature_2m (filter ?P rs)"
  have split: "take (Suc i) rs = take i rs @ [rs ! i]"
    using assms(1) by (simp add: take_Suc_conv_app_nth)
  have fSuc: "filter ?P (take (Suc i) rs) = filter ?P (take i rs) @ [rs ! i]"
    using True by (simp add: split)
  have lenSuc: "length (filter ?P (take (Suc i) rs)) = Suc ?k"
    by (simp add: fSuc)
  have "filter ?P (take (Suc i) rs) = take (Suc ?k) (filter ?P rs)"
    using filter_take_prefix [of ?P "Suc i" rs] lenSuc by simp
  then have tk: "take (Suc ?k) ?xs = map temperature_2m (filter ?P (take (Suc i) rs))"
    by (simp add: take_map)
  have "Suc ?k \<le> length (filter ?P rs)"
    using lenSuc filter_take_prefix [of ?P "Suc i" rs]
    by (metis length_take min.cobounded1 min.commute)
  then have k: "?k < length ?xs" by simp
  have win: "drop (Suc ?k - w) (take (Suc ?k) ?xs) = trailing_temps w rs i"
    using True by (simp add: tk trailing_temps_def Let_def lenSuc)
  have none: "series_mean ys = None" if "length ys < 1" for ys :: "real list"
    using that by (simp add: series_mean_def)
  have "temp_ma (rs' ! i) = rolling w 1 series_mean ?xs ! ?k"
    unfolding rs'_def using assms(1) True by (simp add: nth_assign_where)
  also have "\<dots> = series_mean (present (trailing_temps w rs i))"
    unfolding nth_rolling [OF k] win using none by simp
  finally show ?thesis using True by simp
qed

lemma moving_average_loop_invariant:
  assumes "i < length rs" and "1 \<le> w"
  shows "length (moving_average_loop w cs rs) = length rs \<and>
         map city (moving_average_loop w cs rs) = map city rs \<and>
         map temperature_2m (moving_average_loop w cs rs) = map temperature_2m rs \<and>
         temp_ma (moving_average_loop w cs rs ! i) =
           (if city (rs ! i) \<in> set cs then series_mean (present (trailing_temps w rs i))
            else temp_ma (rs ! i))"
  using assms
proof (induction cs arbitrary: rs)
  case Nil
  then show ?case by simp
next
  case (Cons c cs)
  define rs' where "rs' = assign_where (\<lambda>r. city r = c) (\<lambda>r v. r\<lparr>temp_ma := v\<rparr>) rs
                (rolling w 1 series_mean (map temperature_2m (filter (\<lambda>r. city r = c) rs)))"
  have unfold: "moving_average_loop w (c # cs) rs = moving_average_loop w cs rs'"
    by (simp add: rs'_def)
  have len: "length rs' = length rs" by (simp add: rs'_def)
  have mc: "map city rs' = map city rs"
    unfolding rs'_def by (rule map_assign_where) simp
  have mt: "map temperature_2m rs' = map temperature_2m rs"
    unfolding rs'_def by (rule map_assign_where) simp
  have ci: "city (rs' ! i) = city (rs ! i)"
    using mc Cons.prems(1) len by (metis nth_map)
  have i': "i < length rs'" using Cons.prems(1) len by simp
  note IH = Cons.IH [OF i' Cons.prems(2)]
  have tr: "trailing_temps w rs' i = trailing_temps w rs i"
    by (rule trailing_temps_cong [OF mc mt Cons.prems(1)])
  have step: "temp_ma (rs' ! i) =
         (if city (rs ! i) = c then series_mean (present (trailing_temps w rs i))
          else temp_ma (rs ! i))"
    unfolding rs'_def by (rule moving_average_step [OF Cons.prems])
  show ?case
    unfolding unfold using IH by (simp add: len mc mt ci tr step)
qed

lemma trailing_temps_nonempty:
  assumes "i < length rs" and "1 \<le> w"
  shows "trailing_temps w rs i \<noteq> []"
proof -
  have "take (Suc i) rs = take i rs @ [rs ! i]"
    using assms(1) by (simp add: take_Suc_conv_app_nth)
  then have "0 < length (filter (\<lambda>q. city q = city (rs ! i)) (take (Suc i) rs))"
    by simp
  with assms(2)
  have "length (filter (\<lambda>q. city q = city (rs ! i)) (take (Suc i) rs)) - w
        < length (filter (\<lambda>q. city q = city (rs ! i)) (take (Suc i) rs))"
    by arith
  then show ?thesis
    by (simp add: trailing_temps_def Let_def)
qed

lemma trailing_temps_short:
  assumes "i < length rs"
    and "length (filter (\<lambda>q. city q = city (rs ! i)) (take i rs)) < w"
  shows "trailing_temps w rs i
         = map temperature_2m (filter (\<lambda>q. city q = city (rs ! i)) (take (Suc i) rs))"
proof -
  have "take (Suc i) rs = take i rs @ [rs ! i]"
    using assms(1) by (simp add: take_Suc_conv_app_nth)
  then have "length (filter (\<lambda>q. city q = city (rs ! i)) (take (Suc i) rs))
             = Suc (length (filter (\<lambda>q. city q = city (rs ! i)) (take i rs)))"
    by simp
  with assms(2) show ?thesis
    by (simp add: trailing_temps_def Let_def)
qed

lemma trailing_temps_first:
  assumes "i < length rs" and "1 \<le> w"
    and "filter (\<lambda>q. city q = city (rs ! i)) (take i rs) = []"
  shows "trailing_temps w rs i = [temperature_2m (rs ! i)]"
proof -
  have "take (Suc i) rs = take i rs @ [rs ! i]"
    using assms(1) by (simp add: take_Suc_conv_app_nth)
  then have "filter (\<lambda>q. city q = city (rs ! i)) (take (Suc i) rs) = [rs ! i]"
    using assms(3) by simp
  moreover have "Suc 0 - w = 0" using assms(2) by simp
  ultimately show ?thesis
    by (simp add: trailing_temps_def Let_def)
qed

lemma calculate_moving_averages_rows:
  assumes "has_column df ''city''" and "has_column df ''temperature_2m''"
    and "1 \<le> ma_window cfg" and "i < length (rows df)"
  shows "\<exists>df'. calculate_moving_averages cfg df = Inr df' \<and>
           has_column df' ''temp_ma'' \<and>
           length (rows df') = length (rows df) \<and>
           temp_ma (rows df' ! i)
             = series_mean (present (trailing_temps (nat (ma_window cfg)) (rows df) i))"
proof -
  define rows0 where "rows0 = (if has_column df ''temp_ma'' then rows df
                               else map (\<lambda>r. r\<lparr>temp_ma := None\<rparr>) (rows df))"
  define w where "w = nat (ma_window cfg)"
  define cols where "cols = (if has_column df ''temp_ma'' then columns df
                             else columns df @ [''temp_ma''])"
  have w: "1 \<le> w" using assms(3) by (simp add: w_def)
  have len0: "length rows0 = length (rows df)" by (simp add: rows0_def)
  have mc: "map city rows0 = map city (rows df)" by (simp add: rows0_def o_def)
  have mt: "map temperature_2m rows0 = map temperature_2m (rows df)" by (simp add: rows0_def o_def)
  have i0: "i < length rows0" using assms(4) len0 by simp
  have mem: "city (rows0 ! i) \<in> set (unique (map city (rows df)))"
    using i0 mc by (metis length_map nth_map nth_mem set_unique)
  have tr: "trailing_temps w rows0 i = trailing_temps w (rows df) i"
    by (rule trailing_temps_cong [OF mc mt assms(4)])
  from moving_average_loop_invariant [OF i0 w, of "unique (map city (rows df))"] mem tr len0
  have inv: "length (moving_average_loop w (unique (map city (rows df))) rows0) = length (rows df)"
    "temp_ma (moving_average_loop w (unique (map city (rows df))) rows0 ! i)
       = series_mean (present (trailing_temps w (rows df) i))"
    by simp_all
  have ne: "rows df \<noteq> []" using assms(4) by auto
  define df' where "df' = \<lparr>columns = cols,
        rows = moving_average_loop w (unique (map city (rows df))) rows0\<rparr>"
  have eq: "calculate_moving_averages cfg df = Inr df'"
    using assms(1-3) ne
    by (simp add: calculate_moving_averages_def rows0_def w_def cols_def df'_def)
  have col: "has_column df' ''temp_ma''"
    by (simp add: has_column_def cols_def df'_def)
  have r: "rows df' = moving_average_loop w (unique (map city (rows df))) rows0"
    by (simp add: df'_def)
  have l: "length (rows df') = length (rows df)"
    unfolding r by (rule inv(1))
  have t: "temp_ma (rows df' ! i)
             = series_mean (present (trailing_temps (nat (ma_window cfg)) (rows df) i))"
    unfolding r w_def [symmetric] by (rule inv(2))
  from eq col l t show ?thesis by blast
qed

text \<open>
  C5 (as stated, refuted). The API had no temperature for the first hour of the series:
  the moving average of that row is missing, not a number.
\<close>

theorem moving_average_missing_first_hour:
  "calculate_moving_averages sample_config missing_frame =
     Inr \<lparr>columns = observation_columns @ [''temp_ma''],
          rows = [(raw_obs ''City1'' 0 None)\<lparr>temp_ma := None\<rparr>,
                  (raw_obs ''City1'' 3600 (Some 25))\<lparr>temp_ma := Some 25\<rparr>,
                  (raw_obs ''City1'' 7200 (Some 26))\<lparr>temp_ma := Some (51 / 2)\<rparr>]\<rparr>"
  by (simp add: calculate_moving_averages_def sample_config_def missing_frame_def
      observation_columns_def has_column_def raw_obs_def unique_def rolling_def Let_def
      series_mean_def series_sum_def)

text \<open>
  C5 (amended). With a window \<open>W \<ge> 1\<close>, a table that has the city and temperature columns
  gets the column \<^verbatim>\<open>temp_ma\<close>, and every row's value is decided by the non-empty
  trailing window of its city's temperatures: it is the mean of the temperatures of the
  window that are not missing, and it is missing exactly when the window holds no such
  temperature. While fewer than \<open>W\<close> earlier rows of the city exist, the window is all of
  the city's rows so far, and on the first row of a city the moving average is that row's
  own temperature (missing when the temperature is).
\<close>

theorem calculate_moving_averages_trailing_mean:
  assumes "has_column df ''city''" and "has_column df ''temperature_2m''"
    and "1 \<le> ma_window cfg" and "i < length (rows df)"
  shows "\<exists>df'. calculate_moving_averages cfg df = Inr df' \<and>
           has_column df' ''temp_ma'' \<and>
           length (rows df') = length (rows df) \<and>
           trailing_temps (nat (ma_window cfg)) (rows df) i \<noteq> [] \<and>
           temp_ma (rows df' ! i)
             = (if present (trailing_temps (nat (ma_window cfg)) (rows df) i) = [] then None
                else Some (sum_list (present (trailing_temps (nat (ma_window cfg)) (rows df) i))
                     / real (length (present (trailing_temps (nat (ma_window cfg)) (rows df) i))))) \<and>
           (int (length (filter (\<lambda>q. city q = city (rows df ! i)) (take i (rows df))))
              < ma_window cfg \<longrightarrow>
            trailing_temps (nat (ma_window cfg)) (rows df) i
              = map temperature_2m
                  (filter (\<lambda>q. city q = city (rows df ! i)) (take (Suc i) (rows df)))) \<and>
           (filter (\<lambda>q. city q = city (rows df ! i)) (take i (rows df)) = [] \<longrightarrow>
            temp_ma (rows df' ! i) = temperature_2m (rows df ! i))"
proof -
  let ?w = "nat (ma_window cfg)"
  have w: "1 \<le> ?w" using assms(3) by simp
  from calculate_moving_averages_rows [OF assms] obtain df' where
    df': "calculate_moving_averages cfg df = Inr df'" "has_column df' ''temp_ma''"
    "length (rows df') = length (rows df)"
    "temp_ma (rows df' ! i) = series_mean (present (trailing_temps ?w (rows df) i))"
    by blast
  have ne: "trailing_temps ?w (rows df) i \<noteq> []"
    by (rule trailing_temps_nonempty [OF assms(4) w])
  have mean: "temp_ma (rows df' ! i)
             = (if present (trailing_temps ?w (rows df) i) = [] then None
                else Some (sum_list (present (trailing_temps ?w (rows df) i))
                     / real (length (present (trailing_temps ?w (rows df) i)))))"
    unfolding df'(4) by (simp add: series_mean_eq) (simp add: series_mean_def)
  have short: "trailing_temps ?w (rows df) i
      = map temperature_2m (filter (\<lambda>q. city q = city (rows df ! i)) (take (Suc i) (rows df)))"
    if "int (length (filter (\<lambda>q. city q = city (rows df ! i)) (take i (rows df)))) < ma_window cfg"
  proof -
    from that have "length (filter (\<lambda>q. city q = city (rows df ! i)) (take i (rows df))) < ?w"
      by simp
    then show ?thesis by (rule trailing_temps_short [OF assms(4)])
  qed
  have first: "temp_ma (rows df' ! i) = temperature_2m (rows df ! i)"
    if "filter (\<lambda>q. city q = city (rows df ! i)) (take i (rows df)) = []"
    unfolding df'(4) trailing_temps_first [OF assms(4) w that] by simp
  from df'(1-3) ne mean short first show ?thesis
    by (intro exI conjI impI)
qed

theorem calculate_moving_averages_trailing_mean_witness:
  "has_column sample_frame ''city'' \<and> has_column sample_frame ''temperature_2m'' \<and>
   1 \<le> ma_window sample_config \<and> (1::nat) < length (rows sample_frame) \<and>
   (\<exists>df'. calculate_moving_averages sample_config sample_frame = Inr df' \<and>
      has_column df' ''temp_ma'' \<and> length (rows df') = 3 \<and>
      temp_ma (rows df' ! 1) = Some (45 / 2))"
proof -
  have h: "has_column sample_frame ''city''" "has_column sample_frame ''temperature_2m''"
    "1 \<le> ma_window sample_config" "(1::nat) < length (rows sample_frame)"
    by (simp_all add: has_column_def sample_frame_def observation_columns_def sample_config_def)
  have t: "trailing_temps (nat (ma_window sample_config)) (rows sample_frame) 1
           = [Some 20, Some 25]"
    by (simp add: trailing_temps_def sample_frame_def sample_config_def raw_obs_def Let_def)
  have l: "length (rows sample_frame) = 3" by (simp add: sample_frame_def)
  from calculate_moving_averages_trailing_mean [OF h]
  have "\<exists>df'. calculate_moving_averages sample_config sample_frame = Inr df' \<and>
      has_column df' ''temp_ma'' \<and> length (rows df') = length (rows sample_frame) \<and>
      temp_ma (rows df' ! 1)
        = (if present (trailing_temps (nat (ma_window sample_config)) (rows sample_frame) 1) = []
           then None
           else Some (sum_list (present (trailing_temps (nat (ma_window sample_config))
                                  (rows sample_frame) 1))
                 / real (length (present (trailing_temps (nat (ma_window sample_config))
                                  (rows sample_frame) 1)))))"
    by (elim exE conjE, intro exI conjI)
  then have "\<exists>df'. calculate_moving_averages sample_config sample_frame = Inr df' \<and>
      has_column df' ''temp_ma'' \<and> length (rows df') = 3 \<and>
      temp_ma (rows df' ! 1) = Some (45 / 2)"
    unfolding t l by simp
  with h show ?thesis by (intro conjI)
qed

section \<open>Properties of the regional statistics\<close>

text \<open>
  C9 (as stated, refuted). On a table whose rows all lie in one region, the regional
  dictionary has seven entries: the record count and the count of anomalous rows of the
  cross-city summary of the same rows are not among them.
\<close>

theorem regional_statistics_lack_counts:
  "get_regional_statistics regional_frame =
     Inr [(Some ''Sul'',
           [(''cities'', IntValue 2), (''avg_temperature'', FloatValue 25),
            (''max_temperature'', FloatValue 30), (''min_temperature'', FloatValue 20),
            (''avg_humidity'', FloatValue 60), (''total_precipitation'', FloatValue 3),
            (''max_wind_speed'', FloatValue 20)])] \<and>
   get_summary_statistics regional_frame =
     Inr [(''total_cities'', IntValue 2), (''total_records'', IntValue 3),
          (''avg_temperature'', FloatValue 25), (''max_temperature'', FloatValue 30),
          (''min_temperature'', FloatValue 20), (''avg_humidity'', FloatValue 60),
          (''total_precipitation'', FloatValue 3), (''max_wind_speed'', FloatValue 20),
          (''anomalies_detected'', IntValue 1)]"
  by (simp add: get_regional_statistics_def get_summary_statistics_def regional_frame_def
      observation_columns_def is_empty_def has_column_def missing_column_def obs_def
      unique_def dict_set_def region_stats_def region_rows_def nunique_def float_or_nan_def
      series_mean_def series_sum_def series_max_def series_min_def)

lemma regional_loop_distinct:
  assumes "distinct gs" and "set gs \<inter> set (map fst acc) = {}"
  shows "regional_loop rs gs acc = acc @ map (\<lambda>g. (g, region_stats (region_rows rs g))) gs"
  using assms
proof (induction gs arbitrary: acc)
  case Nil
  then show ?case by simp
next
  case (Cons g gs)
  from Cons.prems(2) have new: "g \<notin> set (map fst acc)" by auto
  then have set: "dict_set acc g (region_stats (region_rows rs g))
                  = acc @ [(g, region_stats (region_rows rs g))]"
    by (simp add: dict_set_def)
  from Cons.prems have "distinct gs"
    and "set gs \<inter> set (map fst (acc @ [(g, region_stats (region_rows rs g))])) = {}"
    by auto
  from Cons.IH [OF this] show ?case
    by (simp add: set)
qed

lemma series_max_eq: "xs \<noteq> [] \<Longrightarrow> series_max xs = Some (Max (set xs))"
  by (cases xs) (simp_all add: series_max_def Max.set_eq_fold [symmetric])

lemma series_min_eq: "xs \<noteq> [] \<Longrightarrow> series_min xs = Some (Min (set xs))"
  by (cases xs) (simp_all add: series_min_def Min.set_eq_fold [symmetric])

lemma nunique_eq: "nunique xs = int (card (set xs))"
proof -
  have "card (set (unique xs)) = length (unique xs)"
    by (rule distinct_card) simp
  then show ?thesis by (simp add: nunique_def)
qed

lemma region_stats_eq:
  assumes "R \<noteq> []"
  shows "region_stats R =
     [(''cities'', IntValue (int (card (city ` set R)))),
      (''avg_temperature'', FloatValue (sum_list (map temperature_2m R) / real (length R))),
      (''max_temperature'', FloatValue (Max (temperature_2m ` set R))),
      (''min_temperature'', FloatValue (Min (temperature_2m ` set R))),
      (''avg_humidity'', FloatValue (sum_list (map relative_humidity_2m R) / real (length R))),
      (''total_precipitation'', FloatValue (sum_list (map precipitation R))),
      (''max_wind_speed'', FloatValue (Max (wind_speed_10m ` set R)))]"
  using assms
  by (simp add: region_stats_def nunique_eq series_mean_eq series_max_eq series_min_eq
      series_sum_eq float_or_nan_def)

text \<open>
  C9 (amended). Without a region column, or on an empty table, the regional statistics are
  the empty mapping. Otherwise (with the columns the statistics read) the mapping has one
  entry per distinct value of the region column, in order of first appearance, and the
  entry of a region \<open>g\<close> holds seven scalars computed over the rows of that region: the
  number of distinct cities, the mean, maximum and minimum temperature, the mean humidity,
  the total precipitation and the maximum wind speed. It holds neither a record count nor
  a count of anomalous rows.
\<close>

theorem get_regional_statistics_by_region:
  "(is_empty df \<or> \<not> has_column df ''region'' \<longrightarrow> get_regional_statistics df = Inr []) \<and>
   (\<not> is_empty df \<and> has_column df ''region'' \<and> has_column df ''city'' \<and>
    has_column df ''temperature_2m'' \<and> has_column df ''relative_humidity_2m'' \<and>
    has_column df ''precipitation'' \<and> has_column df ''wind_speed_10m'' \<longrightarrow>
    (\<exists>regional. get_regional_statistics df = Inr regional \<and>
       map fst regional = unique (map region (rows df)) \<and>
       (\<forall>g. Some g \<in> region ` set (rows df) \<longrightarrow>
          map_of regional (Some g) =
            Some [(''cities'',
                     IntValue (int (card (city ` {r \<in> set (rows df). region r = Some g})))),
                  (''avg_temperature'',
                     FloatValue (sum_list (map temperature_2m
                                   (filter (\<lambda>r. region r = Some g) (rows df)))
                                 / real (length (filter (\<lambda>r. region r = Some g) (rows df))))),
                  (''max_temperature'',
                     FloatValue (Max (temperature_2m ` {r \<in> set (rows df). region r = Some g}))),
                  (''min_temperature'',
                     FloatValue (Min (temperature_2m ` {r \<in> set (rows df). region r = Some g}))),
                  (''avg_humidity'',
                     FloatValue (sum_list (map relative_humidity_2m
                                   (filter (\<lambda>r. region r = Some g) (rows df)))
                                 / real (length (filter (\<lambda>r. region r = Some g) (rows df))))),
                  (''total_precipitation'',
                     FloatValue (sum_list (map precipitation
                                   (filter (\<lambda>r. region r = Some g) (rows df))))),
                  (''max_wind_speed'',
                     FloatValue (Max (wind_speed_10m ` {r \<in> set (rows df). region r = Some g})))])))"
proof (intro conjI impI)
  assume "is_empty df \<or> \<not> has_column df ''region''"
  then show "get_regional_statistics df = Inr []"
    by (auto simp: get_regional_statistics_def)
next
  assume a: "\<not> is_empty df \<and> has_column df ''region'' \<and> has_column df ''city'' \<and>
    has_column df ''temperature_2m'' \<and> has_column df ''relative_humidity_2m'' \<and>
    has_column df ''precipitation'' \<and> has_column df ''wind_speed_10m''"
  define gs where "gs = unique (map region (rows df))"
  define regional where "regional = map (\<lambda>g. (g, region_stats (region_rows (rows df) g))) gs"
  have loop: "regional_loop (rows df) gs [] = regional"
    using regional_loop_distinct [of gs "[]" "rows df"] by (simp add: gs_def regional_def)
  have eq: "get_regional_statistics df = Inr regional"
    using a by (simp add: get_regional_statistics_def missing_column_def loop [unfolded gs_def])
  have keys: "map fst regional = unique (map region (rows df))"
    by (simp add: regional_def gs_def o_def)
  have entry: "map_of regional (Some g) =
      Some [(''cities'', IntValue (int (card (city ` {r \<in> set (rows df). region r = Some g})))),
            (''avg_temperature'',
               FloatValue (sum_list (map temperature_2m
                             (filter (\<lambda>r. region r = Some g) (rows df)))
                           / real (length (filter (\<lambda>r. region r = Some g) (rows df))))),
            (''max_temperature'',
               FloatValue (Max (temperature_2m ` {r \<in> set (rows df). region r = Some g}))),
            (''min_temperature'',
               FloatValue (Min (temperature_2m ` {r \<in> set (rows df). region r = Some g}))),
            (''avg_humidity'',
               FloatValue (sum_list (map relative_humidity_2m
                             (filter (\<lambda>r. region r = Some g) (rows df)))
                           / real (length (filter (\<lambda>r. region r = Some g) (rows df))))),
            (''total_precipitation'',
               FloatValue (sum_list (map precipitation
                             (filter (\<lambda>r. region r = Some g) (rows df))))),
            (''max_wind_speed'',
               FloatValue (Max (wind_speed_10m ` {r \<in> set (rows df). region r = Some g})))]"
    if g: "Some g \<in> region ` set (rows df)" for g
  proof -
    let ?R = "filter (\<lambda>r. region r = Some g) (rows df)"
    have rr: "region_rows (rows df) (Some g) = ?R"
      by (simp add: region_rows_def)
    have ne: "?R \<noteq> []"
      using g by (auto simp: filter_empty_conv)
    have mem: "Some g \<in> set gs"
      using g by (simp add: gs_def)
    have "map_of regional (Some g) = Some (region_stats ?R)"
      unfolding regional_def using mem by (simp add: map_of_map_restrict rr)
    then show ?thesis
      by (simp only: region_stats_eq [OF ne] set_filter)
  qed
  from eq keys entry
  show "\<exists>regional. get_regional_statistics df = Inr regional \<and>
       map fst regional = unique (map region (rows df)) \<and>
       (\<forall>g. Some g \<in> region ` set (rows df) \<longrightarrow>
          map_of regional (Some g) =
            Some [(''cities'',
                     IntValue (int (card (city ` {r \<in> set (rows df). region r = Some g})))),
                  (''avg_temperature'',
                     FloatValue (sum_list (map temperature_2m
                                   (filter (\<lambda>r. region r = Some g) (rows df)))
                                 / real (length (filter (\<lambda>r. region r = Some g) (rows df))))),
                  (''max_temperature'',
                     FloatValue (Max (temperature_2m ` {r \<in> set (rows df). region r = Some g}))),
                  (''min_temperature'',
                     FloatValue (Min (temperature_2m ` {r \<in> set (rows df). region r = Some g}))),
                  (''avg_humidity'',
                     FloatValue (sum_list (map relative_humidity_2m
                                   (filter (\<lambda>r. region r = Some g) (rows df)))
                                 / real (length (filter (\<lambda>r. region r = Some g) (rows df))))),
                  (''total_precipitation'',
                     FloatValue (sum_list (map precipitation
                                   (filter (\<lambda>r. region r = Some g) (rows df))))),
                  (''max_wind_speed'',
                     FloatValue (Max (wind_speed_10m ` {r \<in> set (rows df). region r = Some g})))])"
    by (intro exI [of _ regional] conjI allI impI)
qed

theorem get_regional_statistics_by_region_witness:
  "\<not> is_empty regional_frame \<and> has_column regional_frame ''region'' \<and>
   has_column regional_frame ''city'' \<and> has_column regional_frame ''temperature_2m'' \<and>
   has_column regional_frame ''relative_humidity_2m'' \<and>
   has_column regional_frame ''precipitation'' \<and> has_column regional_frame ''wind_speed_10m'' \<and>
   (\<exists>regional. get_regional_statistics regional_frame = Inr regional \<and>
      map fst regional = [Some ''Sul''])"
proof -
  have h: "\<not> is_empty regional_frame \<and> has_column regional_frame ''region'' \<and>
      has_column regional_frame ''city'' \<and> has_column regional_frame ''temperature_2m'' \<and>
      has_column regional_frame ''relative_humidity_2m'' \<and>
      has_column regional_frame ''precipitation'' \<and> has_column regional_frame ''wind_speed_10m''"
    by (simp add: is_empty_def has_column_def regional_frame_def observation_columns_def)
  have u: "unique (map region (rows regional_frame)) = [Some ''Sul'']"
    by (simp add: regional_frame_def obs_def unique_def)
  from get_regional_statistics_by_region [of regional_frame, THEN conjunct2, THEN mp, OF h]
  have "\<exists>regional. get_regional_statistics regional_frame = Inr regional \<and>
      map fst regional = unique (map region (rows regional_frame))"
    by (elim exE conjE, intro exI conjI)
  then have "\<exists>regional. get_regional_statistics regional_frame = Inr regional \<and>
      map fst regional = [Some ''Sul'']"
    unfolding u .
  with h show ?thesis by (intro conjI) (elim conjE, assumption)+
qed

section \<open>Properties of the pattern detector\<close>







lemma concat_map_findings:
  assumes "\<And>c. P c \<Longrightarrow> \<exists>x. f c = [x]" and "\<And>c. \<not> P c \<Longrightarrow> f c = []"
  shows "concat (map f cs) = map (\<lambda>c. hd (f c)) (filter P cs)"
proof (induction cs)
  case Nil
  then show ?case by simp
next
  case (Cons c cs)
  show ?case
  proof (cases "P c")
    case True
    with assms(1) obtain x where "f c = [x]" by blast
    with True Cons show ?thesis by simp
  next
    case False
    with assms(2) have "f c = []" by blast
    with False Cons show ?thesis by simp
  qed
qed

lemma length_diff_periods [simp]: "length (diff_periods n xs) = length xs"
  by (simp add: diff_periods_def)






lemma findings_assembly:
  assumes "\<And>c. \<not> P c \<Longrightarrow> f c = []"
    and "\<And>c. P c \<Longrightarrow> \<exists>x. f c = [x] \<and> key x = c \<and> R c x"
  shows "map key (concat (map f cs)) = filter P cs \<and>
         (\<forall>x \<in> set (concat (map f cs)). R (key x) x)"
proof (induction cs)
  case Nil
  then show ?case by simp
next
  case (Cons c cs)
  show ?case
  proof (cases "P c")
    case True
    from assms(2) [OF True] obtain x where "f c = [x]" "key x = c" "R c x" by blast
    with True Cons show ?thesis by simp
  next
    case False
    from assms(1) [OF False] False Cons show ?thesis by simp
  qed
qed

lemma detect_weather_patterns_eq:
  assumes "\<not> is_empty df" and "has_column df ''city''" and "has_column df ''time''"
    and "has_column df ''temperature_2m''" and "has_column df ''precipitation''"
  shows "detect_weather_patterns df =
          Inr \<lparr>heat_waves =
                 concat (map (\<lambda>c. detect_heat_wave c (city_series (rows df) c))
                           (unique (map city (rows df)))),
               cold_fronts =
                 concat (map (\<lambda>c. detect_cold_front c (city_series (rows df) c))
                           (unique (map city (rows df)))),
               heavy_rain_events =
                 concat (map (\<lambda>c. detect_heavy_rain c (city_series (rows df) c))
                           (unique (map city (rows df))))\<rparr>"
  using assms by (simp add: detect_weather_patterns_def missing_column_def)





subsection \<open>Heat waves: group numbers and runs of hot hours\<close>

text \<open>
  The detector numbers the stretches of equal values of the hot-hour series and counts the
  hot hours of each number. The lemmas below show that hot hours carry the same number
  exactly when all hours between them are hot, so the counts are the lengths of the maximal
  runs of hot hours.
\<close>

lemma length_changes [simp]: "length (changes prev bs) = length bs"
  by (induction bs arbitrary: prev) simp_all

lemma length_cumsum [simp]: "length (cumsum acc bs) = length bs"
  by (induction bs arbitrary: acc) simp_all

lemma length_heat_group [simp]: "length (heat_group bs) = length bs"
  by (simp add: heat_group_def)

text \<open>The group number grows by one exactly where the value changes.\<close>

lemma group_step:
  assumes "Suc i < length bs"
  shows "cumsum acc (changes prev bs) ! Suc i
         = cumsum acc (changes prev bs) ! i + of_bool (bs ! Suc i \<noteq> bs ! i)"
  using assms
proof (induction bs arbitrary: acc prev i)
  case Nil
  then show ?case by simp
next
  case (Cons b bs)
  show ?case
  proof (cases i)
    case 0
    with Cons.prems obtain b' bs' where bs: "bs = b' # bs'"
      by (cases bs) auto
    show ?thesis
      by (simp add: 0 bs)
  next
    case (Suc j)
    with Cons.prems have "Suc j < length bs" by simp
    from Cons.IH [OF this] show ?thesis
      by (simp add: Suc)
  qed
qed

lemma heat_group_step:
  assumes "Suc i < length bs"
  shows "heat_group bs ! Suc i = heat_group bs ! i + of_bool (bs ! Suc i \<noteq> bs ! i)"
  unfolding heat_group_def by (rule group_step [OF assms])

lemma heat_group_mono:
  assumes "i \<le> j" and "j < length bs"
  shows "heat_group bs ! i \<le> heat_group bs ! j"
  using assms
proof (induction j)
  case 0
  then show ?case by simp
next
  case (Suc j)
  show ?case
  proof (cases "i = Suc j")
    case True
    then show ?thesis by simp
  next
    case False
    with Suc.prems have "i \<le> j" "j < length bs" by simp_all
    with Suc.IH have "heat_group bs ! i \<le> heat_group bs ! j" by simp
    also have "\<dots> \<le> heat_group bs ! Suc j"
      using heat_group_step [OF Suc.prems(2)] by simp
    finally show ?thesis .
  qed
qed

lemma same_group_same_value:
  assumes "i \<le> j" and "j < length bs" and "heat_group bs ! i = heat_group bs ! j"
    and "i \<le> l" and "l \<le> j"
  shows "bs ! l = bs ! i"
  using assms
proof (induction j arbitrary: l)
  case 0
  then show ?case by simp
next
  case (Suc j)
  show ?case
  proof (cases "i = Suc j")
    case True
    with Suc.prems show ?thesis by simp
  next
    case False
    with Suc.prems have ij: "i \<le> j" and j: "j < length bs" by simp_all
    have le1: "heat_group bs ! i \<le> heat_group bs ! j"
      by (rule heat_group_mono [OF ij j])
    have step: "heat_group bs ! Suc j = heat_group bs ! j + of_bool (bs ! Suc j \<noteq> bs ! j)"
      by (rule heat_group_step [OF Suc.prems(2)])
    from le1 step Suc.prems(3) have eq: "heat_group bs ! i = heat_group bs ! j"
      and same: "bs ! Suc j = bs ! j"
      by (auto split: if_splits)
    show ?thesis
    proof (cases "l = Suc j")
      case True
      from Suc.IH [OF ij j eq ij order_refl] same True show ?thesis by simp
    next
      case False
      with Suc.prems have "l \<le> j" by simp
      from Suc.IH [OF ij j eq Suc.prems(4) this] show ?thesis .
    qed
  qed
qed

lemma same_value_same_group:
  assumes "i \<le> j" and "j < length bs" and "\<forall>l. i \<le> l \<and> l \<le> j \<longrightarrow> bs ! l = bs ! i"
  shows "heat_group bs ! j = heat_group bs ! i"
  using assms
proof (induction j)
  case 0
  then show ?case by simp
next
  case (Suc j)
  show ?case
  proof (cases "i = Suc j")
    case True
    then show ?thesis by simp
  next
    case False
    with Suc.prems have ij: "i \<le> j" and j: "j < length bs" by simp_all
    have all: "\<forall>l. i \<le> l \<and> l \<le> j \<longrightarrow> bs ! l = bs ! i"
    proof (intro allI impI)
      fix l
      assume "i \<le> l \<and> l \<le> j"
      then have "i \<le> l \<and> l \<le> Suc j" by simp
      with Suc.prems(3) [rule_format, of l] show "bs ! l = bs ! i" by blast
    qed
    have s1: "bs ! Suc j = bs ! i"
      using Suc.prems(1) Suc.prems(3) [rule_format, of "Suc j"] by blast
    have s2: "bs ! j = bs ! i"
      using ij Suc.prems(3) [rule_format, of j] by (blast intro: le_SucI)
    from s1 s2 have "bs ! Suc j = bs ! j" by simp
    with heat_group_step [OF Suc.prems(2)]
    have "heat_group bs ! Suc j = heat_group bs ! j" by simp
    with Suc.IH [OF ij j all] show ?thesis by simp
  qed
qed

text \<open>The hot hours that carry the group number \<open>g\<close>.\<close>

lemma group_count:
  "length (filter (\<lambda>x. x = g) (map snd (filter fst (zip bs (heat_group bs)))))
   = card {i. i < length bs \<and> bs ! i \<and> heat_group bs ! i = g}"
proof -
  have "filter (\<lambda>x. x = g) (map snd (filter fst zs))
        = map snd (filter (\<lambda>z. fst z \<and> snd z = g) zs)" for zs :: "(bool \<times> nat) list"
    by (induction zs) auto
  then have "length (filter (\<lambda>x. x = g) (map snd (filter fst (zip bs (heat_group bs)))))
        = length (filter (\<lambda>z. fst z \<and> snd z = g) (zip bs (heat_group bs)))"
    by simp
  also have "\<dots> = card {i. i < length (zip bs (heat_group bs)) \<and>
                        (fst (zip bs (heat_group bs) ! i) \<and> snd (zip bs (heat_group bs) ! i) = g)}"
    by (rule length_filter_conv_card)
  also have "{i. i < length (zip bs (heat_group bs)) \<and>
                 (fst (zip bs (heat_group bs) ! i) \<and> snd (zip bs (heat_group bs) ! i) = g)}
             = {i. i < length bs \<and> bs ! i \<and> heat_group bs ! i = g}"
    by (rule Collect_cong) auto
  finally show ?thesis .
qed

lemma set_groups:
  "set (map snd (filter fst (zip bs (heat_group bs))))
   = {g. \<exists>i. i < length bs \<and> bs ! i \<and> heat_group bs ! i = g}"
proof (intro set_eqI iffI)
  fix g
  assume "g \<in> set (map snd (filter fst (zip bs (heat_group bs))))"
  then obtain z where z: "z \<in> set (zip bs (heat_group bs))" and f: "fst z" and s: "snd z = g"
    by auto
  from z obtain i where "i < length bs" "z = (bs ! i, heat_group bs ! i)"
    by (auto simp: set_zip)
  with f s show "g \<in> {g. \<exists>i. i < length bs \<and> bs ! i \<and> heat_group bs ! i = g}"
    by auto
next
  fix g
  assume "g \<in> {g. \<exists>i. i < length bs \<and> bs ! i \<and> heat_group bs ! i = g}"
  then obtain i where i: "i < length bs" and b: "bs ! i" and g: "heat_group bs ! i = g"
    by blast
  from i have "(bs ! i, heat_group bs ! i) \<in> set (zip bs (heat_group bs))"
    by (auto simp: set_zip)
  with b have "(bs ! i, heat_group bs ! i) \<in> set (filter fst (zip bs (heat_group bs)))"
    by simp
  then have "snd (bs ! i, heat_group bs ! i) \<in> snd ` set (filter fst (zip bs (heat_group bs)))"
    by (rule imageI)
  with g show "g \<in> set (map snd (filter fst (zip bs (heat_group bs))))"
    by simp
qed

lemma run_within_group:
  assumes "has_run bs k" and "1 \<le> k"
  shows "\<exists>g. k \<le> card {i. i < length bs \<and> bs ! i \<and> heat_group bs ! i = g}"
proof -
  from assms(1) obtain i where len: "i + k \<le> length bs" and hot: "\<forall>j<k. bs ! (i + j)"
    unfolding has_run_def by blast
  from hot assms(2) have bi: "bs ! i"
    by (metis add.right_neutral less_eq_Suc_le One_nat_def)
  have sub: "{i ..< i + k} \<subseteq> {l. l < length bs \<and> bs ! l \<and> heat_group bs ! l = heat_group bs ! i}"
  proof
    fix l
    assume "l \<in> {i ..< i + k}"
    then have il: "i \<le> l" and lk: "l < i + k" by simp_all
    from lk len have ll: "l < length bs" by simp
    have v: "bs ! m" if "i \<le> m" "m \<le> l" for m
    proof -
      from that lk have "m - i < k" by simp
      with hot have "bs ! (i + (m - i))" by blast
      with that show ?thesis by simp
    qed
    have "\<forall>m. i \<le> m \<and> m \<le> l \<longrightarrow> bs ! m = bs ! i"
      using v bi by blast
    from same_value_same_group [OF il ll this] v [OF il order_refl] ll
    show "l \<in> {l. l < length bs \<and> bs ! l \<and> heat_group bs ! l = heat_group bs ! i}"
      by simp
  qed
  have fin: "finite {l. l < length bs \<and> bs ! l \<and> heat_group bs ! l = heat_group bs ! i}"
    by simp
  from card_mono [OF fin sub]
  have "k \<le> card {l. l < length bs \<and> bs ! l \<and> heat_group bs ! l = heat_group bs ! i}"
    by simp
  then show ?thesis ..
qed

lemma group_is_run:
  assumes "k \<le> card {i. i < length bs \<and> bs ! i \<and> heat_group bs ! i = g}" and "1 \<le> k"
  shows "has_run bs k"
proof -
  define A where "A = {i. i < length bs \<and> bs ! i \<and> heat_group bs ! i = g}"
  have fin: "finite A" by (simp add: A_def)
  from assms have c1: "1 \<le> card A"
    unfolding A_def by linarith
  have ne: "A \<noteq> {}"
  proof
    assume "A = {}"
    then have "card A = 0" by simp
    with c1 show False by simp
  qed
  define a where "a = Min A"
  define b where "b = Max A"
  have aA: "a \<in> A" and bA: "b \<in> A"
    using fin ne by (simp_all add: a_def b_def)
  have ab: "a \<le> b"
    using fin ne by (simp add: a_def b_def)
  from aA bA have bl: "b < length bs" and hot_a: "bs ! a"
    and eq: "heat_group bs ! a = heat_group bs ! b"
    by (simp_all add: A_def)
  have "A \<subseteq> {a .. b}"
    using fin by (auto simp: a_def b_def)
  from card_mono [OF _ this] have cA: "card A \<le> Suc b - a" by simp
  from assms(1) have kA: "k \<le> card A" by (simp add: A_def)
  from kA cA ab have k: "a + k \<le> Suc b" by linarith
  have "bs ! (a + j)" if "j < k" for j
  proof -
    from that k have "a \<le> a + j" "a + j \<le> b" by simp_all
    from same_group_same_value [OF ab bl eq this] hot_a show ?thesis by simp
  qed
  moreover from k bl have "a + k \<le> length bs" by simp
  ultimately show ?thesis
    unfolding has_run_def by blast
qed

lemma heat_sizes_set:
  "set (map snd (heat_sequences bs))
   = {n. \<exists>g. (\<exists>i. i < length bs \<and> bs ! i \<and> heat_group bs ! i = g) \<and>
              n = card {i. i < length bs \<and> bs ! i \<and> heat_group bs ! i = g}}"
proof -
  define groups where "groups = map snd (filter fst (zip bs (heat_group bs)))"
  have "map snd (heat_sequences bs)
        = map (\<lambda>g. length (filter (\<lambda>x. x = g) groups)) (sort (unique groups))"
    by (simp add: heat_sequences_def groups_def Let_def o_def)
  then have "set (map snd (heat_sequences bs))
        = (\<lambda>g. length (filter (\<lambda>x. x = g) groups)) ` set groups"
    by simp
  also have "\<dots> = (\<lambda>g. card {i. i < length bs \<and> bs ! i \<and> heat_group bs ! i = g}) ` set groups"
    unfolding groups_def group_count ..
  also have "set groups = {g. \<exists>i. i < length bs \<and> bs ! i \<and> heat_group bs ! i = g}"
    unfolding groups_def by (rule set_groups)
  finally show ?thesis by blast
qed

lemma heat_sizes_run:
  assumes "1 \<le> k"
  shows "(\<exists>n \<in> set (map snd (heat_sequences bs)). k \<le> n) \<longleftrightarrow> has_run bs k"
proof
  assume "\<exists>n \<in> set (map snd (heat_sequences bs)). k \<le> n"
  then obtain g where "k \<le> card {i. i < length bs \<and> bs ! i \<and> heat_group bs ! i = g}"
    unfolding heat_sizes_set by blast
  then show "has_run bs k" using assms by (rule group_is_run)
next
  assume "has_run bs k"
  from run_within_group [OF this assms] obtain g
    where g: "k \<le> card {i. i < length bs \<and> bs ! i \<and> heat_group bs ! i = g}" ..
  have "{i. i < length bs \<and> bs ! i \<and> heat_group bs ! i = g} \<noteq> {}"
  proof
    assume "{i. i < length bs \<and> bs ! i \<and> heat_group bs ! i = g} = {}"
    then have "card {i. i < length bs \<and> bs ! i \<and> heat_group bs ! i = g} = 0"
      by (simp only: card.empty)
    with g assms show False by linarith
  qed
  then have "\<exists>i. i < length bs \<and> bs ! i \<and> heat_group bs ! i = g" by blast
  then have "card {i. i < length bs \<and> bs ! i \<and> heat_group bs ! i = g}
             \<in> set (map snd (heat_sequences bs))"
    unfolding heat_sizes_set by blast
  with g show "\<exists>n \<in> set (map snd (heat_sequences bs)). k \<le> n" by blast
qed

lemma heat_sizes_positive:
  assumes "n \<in> set (map snd (heat_sequences bs))"
  shows "1 \<le> n"
proof -
  from assms obtain g i where i: "i < length bs \<and> bs ! i \<and> heat_group bs ! i = g"
    and n: "n = card {i. i < length bs \<and> bs ! i \<and> heat_group bs ! i = g}"
    unfolding heat_sizes_set by blast
  have fin: "finite {i. i < length bs \<and> bs ! i \<and> heat_group bs ! i = g}" by simp
  from i have "i \<in> {i. i < length bs \<and> bs ! i \<and> heat_group bs ! i = g}" by simp
  with fin have "0 < card {i. i < length bs \<and> bs ! i \<and> heat_group bs ! i = g}"
    by (metis card_gt_0_iff empty_iff)
  with n show ?thesis by simp
qed

lemma finite_runs: "finite {k. has_run bs k}"
proof -
  have "{k. has_run bs k} \<subseteq> {.. length bs}"
    by (auto simp: has_run_def)
  then show ?thesis by (rule finite_subset) simp
qed

lemma has_run_zero: "has_run bs 0"
  unfolding has_run_def by (rule exI [of _ 0]) simp

lemma has_run_downward:
  assumes "has_run bs k" and "k' \<le> k"
  shows "has_run bs k'"
proof -
  from assms(1) obtain i where "i + k \<le> length bs" "\<forall>j<k. bs ! (i + j)"
    unfolding has_run_def by blast
  with assms(2) have "i + k' \<le> length bs \<and> (\<forall>j<k'. bs ! (i + j))" by simp
  then show ?thesis unfolding has_run_def ..
qed

lemma longest_run_exact:
  assumes "has_run bs n" and "\<not> has_run bs (Suc n)"
  shows "Max {k. has_run bs k} = n"
proof (rule Max_eqI)
  show "finite {k. has_run bs k}" by (rule finite_runs)
  show "n \<in> {k. has_run bs k}" using assms(1) by simp
  fix k
  assume "k \<in> {k. has_run bs k}"
  then have k: "has_run bs k" by simp
  show "k \<le> n"
  proof (rule ccontr)
    assume "\<not> k \<le> n"
    then have "Suc n \<le> k" by simp
    from has_run_downward [OF k this] assms(2) show False by simp
  qed
qed

lemma heat_duration:
  assumes "map snd (heat_sequences bs) \<noteq> []"
  shows "(case map snd (heat_sequences bs) of [] \<Rightarrow> 0 | n # ns \<Rightarrow> fold max ns n)
         = Max {k. has_run bs k}"
proof -
  define sizes where "sizes = map snd (heat_sequences bs)"
  from assms obtain n ns where s: "sizes = n # ns"
    unfolding sizes_def by (cases "map snd (heat_sequences bs)") auto
  have "(case sizes of [] \<Rightarrow> 0 | n # ns \<Rightarrow> fold max ns n) = Max (set sizes)"
    unfolding s by (simp add: Max.set_eq_fold [symmetric])
  moreover have "Max {k. has_run bs k} = Max (set sizes)"
  proof (rule Max_eqI)
    show "finite {k. has_run bs k}" by (rule finite_runs)
  next
    have ne: "set sizes \<noteq> {}" using s by simp
    have m: "Max (set sizes) \<in> set sizes"
      using ne by (intro Max_in) simp_all
    then have "1 \<le> Max (set sizes)"
      unfolding sizes_def by (rule heat_sizes_positive)
    from heat_sizes_run [OF this, of bs] m
    have "has_run bs (Max (set sizes))"
      unfolding sizes_def by blast
    then show "Max (set sizes) \<in> {k. has_run bs k}" by simp
  next
    fix k
    assume "k \<in> {k. has_run bs k}"
    then have k: "has_run bs k" by simp
    show "k \<le> Max (set sizes)"
    proof (cases "k = 0")
      case True
      then show ?thesis by simp
    next
      case False
      then have "1 \<le> k" by simp
      from heat_sizes_run [OF this, of bs] k
      obtain n' where n': "n' \<in> set sizes" and kn: "k \<le> n'"
        unfolding sizes_def by blast
      from n' have "n' \<le> Max (set sizes)" by simp
      with kn show ?thesis by (rule order_trans)
    qed
  qed
  ultimately show ?thesis unfolding sizes_def by simp
qed

lemma detect_heat_wave_series:
  fixes s :: "observation list"
  defines "hw \<equiv> map (\<lambda>r. temperature_2m r > 35) s"
  shows "(\<not> has_run hw 3 \<longrightarrow> detect_heat_wave c s = []) \<and>
         (has_run hw 3 \<longrightarrow>
            (\<exists>h. detect_heat_wave c s = [h] \<and> hw_city h = c \<and>
               duration_hours h = Max {k. has_run hw k} \<and>
               max_temp h = Some (Max (temperature_2m ` {r \<in> set s. 35 < temperature_2m r}))))"
proof -
  define sizes where "sizes = map snd (heat_sequences hw)"
  have any: "list_ex (\<lambda>n. n \<ge> 3) sizes \<longleftrightarrow> has_run hw 3"
    unfolding sizes_def list_ex_iff using heat_sizes_run [of 3 hw] by simp
  have unfold: "detect_heat_wave c s =
      (if list_ex (\<lambda>n. n \<ge> 3) sizes
       then [\<lparr>hw_city = c,
              duration_hours = (case sizes of [] \<Rightarrow> 0 | n # ns \<Rightarrow> fold max ns n),
              max_temp = series_max (map temperature_2m
                           (filter (\<lambda>r. temperature_2m r > 35) s))\<rparr>]
       else [])"
    unfolding detect_heat_wave_def Let_def sizes_def hw_def by (rule refl)
  show ?thesis
  proof (intro conjI impI)
    assume "\<not> has_run hw 3"
    with any show "detect_heat_wave c s = []" by (simp add: unfold)
  next
    assume run: "has_run hw 3"
    with any have ex: "list_ex (\<lambda>n. n \<ge> 3) sizes" by simp
    then have ne: "map snd (heat_sequences hw) \<noteq> []"
      unfolding sizes_def by auto
    define h where "h = \<lparr>hw_city = c,
              duration_hours = (case sizes of [] \<Rightarrow> 0 | n # ns \<Rightarrow> fold max ns n),
              max_temp = series_max (map temperature_2m
                           (filter (\<lambda>r. temperature_2m r > 35) s))\<rparr>"
    have 1: "detect_heat_wave c s = [h]"
      using ex by (simp add: unfold h_def)
    have 2: "hw_city h = c" by (simp add: h_def)
    have 3: "duration_hours h = Max {k. has_run hw k}"
      using heat_duration [OF ne] by (simp add: h_def sizes_def)
    from run obtain i where "i + 3 \<le> length hw" and "\<forall>j<3. hw ! (i + j)"
      unfolding has_run_def by blast
    then have "i < length s" and "hw ! i"
      by (simp_all add: hw_def) (metis add.right_neutral zero_less_numeral)
    then have "35 < temperature_2m (s ! i)" by (simp add: hw_def)
    with \<open>i < length s\<close> have "filter (\<lambda>r. temperature_2m r > 35) s \<noteq> []"
      by (metis filter_empty_conv nth_mem)
    then have hot: "map temperature_2m (filter (\<lambda>r. temperature_2m r > 35) s) \<noteq> []"
      by simp
    have 4: "max_temp h = Some (Max (temperature_2m ` {r \<in> set s. 35 < temperature_2m r}))"
      using series_max_eq [OF hot] by (simp add: h_def)
    from 1 2 3 4
    show "\<exists>h. detect_heat_wave c s = [h] \<and> hw_city h = c \<and>
               duration_hours h = Max {k. has_run hw k} \<and>
               max_temp h = Some (Max (temperature_2m ` {r \<in> set s. 35 < temperature_2m r}))"
      by blast
  qed
qed

text \<open>
  C6. On a non-empty table with the columns the detector reads, in which no city has two
  rows of the same time (so that the time-sorted series is determined), the cities that get a
  heat-wave finding are, in order of first appearance and each at most once, exactly those
  whose time-sorted series holds three consecutive hours above 35 degrees. The finding records
  as duration the length of the longest run of consecutive hours above 35, so a city whose
  longest run is exactly \<open>n\<close> hours (a run of \<open>n\<close> and none of \<open>n + 1\<close>) has the duration
  \<open>n\<close>, and as maximum the highest temperature of all the city's hours above 35, whether or
  not they belong to a run of three.
\<close>

theorem heat_wave_findings:
  assumes "\<not> is_empty df" and "has_column df ''city''" and "has_column df ''time''"
    and "has_column df ''temperature_2m''" and "has_column df ''precipitation''"
    and "distinct (map (\<lambda>r. (city r, time r)) (rows df))"
  shows "\<exists>p. detect_weather_patterns df = Inr p \<and>
           map hw_city (heat_waves p)
             = filter (\<lambda>c. has_run (hot_hours (rows df) c) 3) (unique (map city (rows df))) \<and>
           distinct (map hw_city (heat_waves p)) \<and>
           (\<forall>h \<in> set (heat_waves p).
              duration_hours h = Max {n. has_run (hot_hours (rows df) (hw_city h)) n} \<and>
              (\<forall>n. has_run (hot_hours (rows df) (hw_city h)) n \<and>
                   \<not> has_run (hot_hours (rows df) (hw_city h)) (Suc n)
                   \<longrightarrow> duration_hours h = n) \<and>
              max_temp h
                = Some (Max {temperature_2m r |r.
                               r \<in> set (rows df) \<and> city r = hw_city h \<and> 35 < temperature_2m r}))"
proof -
  define cs where "cs = unique (map city (rows df))"
  define f where "f = (\<lambda>c. detect_heat_wave c (city_series (rows df) c))"
  define P where "P = (\<lambda>c. has_run (hot_hours (rows df) c) 3)"
  define R :: "string \<Rightarrow> heat_wave \<Rightarrow> bool" where "R = (\<lambda>c x.
      duration_hours x = Max {n. has_run (hot_hours (rows df) c) n} \<and>
      (\<forall>n. has_run (hot_hours (rows df) c) n \<and> \<not> has_run (hot_hours (rows df) c) (Suc n)
           \<longrightarrow> duration_hours x = n) \<and>
      max_temp x
        = Some (Max {temperature_2m r |r.
                       r \<in> set (rows df) \<and> city r = c \<and> 35 < temperature_2m r}))"
  have hot_set: "temperature_2m ` {r \<in> set (city_series (rows df) c). 35 < temperature_2m r}
      = {temperature_2m r |r. r \<in> set (rows df) \<and> city r = c \<and> 35 < temperature_2m r}" for c
    unfolding city_series_def by auto
  have none: "f c = []" if "\<not> P c" for c
    using that detect_heat_wave_series [of "city_series (rows df) c" c]
    unfolding P_def f_def hot_hours_def by blast
  have some: "\<exists>x. f c = [x] \<and> hw_city x = c \<and> R c x" if "P c" for c
  proof -
    from that detect_heat_wave_series [of "city_series (rows df) c" c]
    obtain x where x: "f c = [x]" "hw_city x = c"
      and d: "duration_hours x = Max {k. has_run (hot_hours (rows df) c) k}"
      and m: "max_temp x = Some (Max (temperature_2m `
                 {r \<in> set (city_series (rows df) c). 35 < temperature_2m r}))"
      unfolding P_def f_def hot_hours_def by blast
    have e: "duration_hours x = n"
      if "has_run (hot_hours (rows df) c) n \<and> \<not> has_run (hot_hours (rows df) c) (Suc n)" for n
      using that d longest_run_exact [of "hot_hours (rows df) c" n] by simp
    from d e m have "R c x"
      unfolding R_def hot_set by blast
    with x show ?thesis by blast
  qed
  note asm = findings_assembly [of P f hw_city R cs, OF none some]
  define p where "p = \<lparr>heat_waves = concat (map f cs),
               cold_fronts =
                 concat (map (\<lambda>c. detect_cold_front c (city_series (rows df) c)) cs),
               heavy_rain_events =
                 concat (map (\<lambda>c. detect_heavy_rain c (city_series (rows df) c)) cs)\<rparr>"
  have eq: "detect_weather_patterns df = Inr p"
    unfolding p_def f_def cs_def by (rule detect_weather_patterns_eq [OF assms(1-5)])
  have hw: "heat_waves p = concat (map f cs)" by (simp add: p_def)
  have 1: "map hw_city (heat_waves p) = filter P cs"
    unfolding hw using asm by blast
  have 2: "distinct (map hw_city (heat_waves p))"
    unfolding 1 by (simp add: cs_def)
  have 3: "\<forall>x \<in> set (heat_waves p). R (hw_city x) x"
    unfolding hw using asm by blast
  from eq 1 2 3 show ?thesis
    unfolding P_def R_def cs_def by blast
qed

theorem heat_wave_findings_witness:
  "\<not> is_empty heat_frame \<and> has_column heat_frame ''city'' \<and> has_column heat_frame ''time'' \<and>
   has_column heat_frame ''temperature_2m'' \<and> has_column heat_frame ''precipitation'' \<and>
   distinct (map (\<lambda>r. (city r, time r)) (rows heat_frame)) \<and>
   (\<exists>p. detect_weather_patterns heat_frame = Inr p \<and>
        map hw_city (heat_waves p) = [''Cuiaba''] \<and>
        map duration_hours (heat_waves p) = [3])"
proof -
  have r: "rows heat_frame \<noteq> []" by (simp add: heat_frame_def)
  have h: "\<not> is_empty heat_frame" "has_column heat_frame ''city''"
    "has_column heat_frame ''time''" "has_column heat_frame ''temperature_2m''"
    "has_column heat_frame ''precipitation''"
    using r by (simp_all add: is_empty_def has_column_def heat_frame_def observation_columns_def)
  have d: "distinct (map (\<lambda>r. (city r, time r)) (rows heat_frame))"
    by code_simp
  have u: "unique (map city (rows heat_frame)) = [''Cuiaba'']"
    by code_simp
  have hs: "hot_hours (rows heat_frame) ''Cuiaba'' = [False, True, True, True, False]"
    by code_simp
  have run3: "has_run (hot_hours (rows heat_frame) ''Cuiaba'') 3"
    unfolding hs has_run_def
  proof (intro exI [of _ 1] conjI allI impI)
    show "1 + 3 \<le> length [False, True, True, True, False]" by simp
    fix j :: nat assume "j < 3"
    then have "j = 0 \<or> j = 1 \<or> j = 2" by arith
    then show "[False, True, True, True, False] ! (1 + j)" by auto
  qed
  have run4: "\<not> has_run (hot_hours (rows heat_frame) ''Cuiaba'') (Suc 3)"
    unfolding hs has_run_def
  proof
    assume "\<exists>i. i + Suc 3 \<le> length [False, True, True, True, False] \<and>
                (\<forall>j<Suc 3. [False, True, True, True, False] ! (i + j))"
    then obtain i where i: "i + Suc 3 \<le> length [False, True, True, True, False]"
      and a: "\<forall>j<Suc 3. [False, True, True, True, False] ! (i + j)" by blast
    from i have "i = 0 \<or> i = 1" by (simp; arith)
    then show False
    proof
      assume "i = 0"
      with a [rule_format, of 0] show False by simp
    next
      assume "i = 1"
      with a [rule_format, of 3] show False by simp
    qed
  qed
  from heat_wave_findings [OF h d]
  obtain p where p: "detect_weather_patterns heat_frame = Inr p"
    and m: "map hw_city (heat_waves p)
             = filter (\<lambda>c. has_run (hot_hours (rows heat_frame) c) 3)
                 (unique (map city (rows heat_frame)))"
    and e: "\<forall>h \<in> set (heat_waves p).
              \<forall>n. has_run (hot_hours (rows heat_frame) (hw_city h)) n \<and>
                   \<not> has_run (hot_hours (rows heat_frame) (hw_city h)) (Suc n)
                   \<longrightarrow> duration_hours h = n"
    by (elim exE conjE) blast
  from m have m': "map hw_city (heat_waves p) = [''Cuiaba'']"
    unfolding u using run3 by simp
  then obtain x where x: "heat_waves p = [x]" and c: "hw_city x = ''Cuiaba''"
    by auto
  from e [rule_format, of x 3] x c run3 run4 have "duration_hours x = 3" by simp
  with x have n: "map duration_hours (heat_waves p) = [3]" by simp
  have "\<exists>p. detect_weather_patterns heat_frame = Inr p \<and>
        map hw_city (heat_waves p) = [''Cuiaba''] \<and>
        map duration_hours (heat_waves p) = [3]"
    by (intro exI [of _ p] conjI) (rule p m' n)+
  with h d show ?thesis by (intro conjI)
qed

end
